theory Spec2Isabelle
  imports Main
begin

section \<open>JavaScript values\<close>

subsection \<open>Strings\<close>

text \<open>
  A JavaScript string is a sequence of UTF-16 code units; \<open>length\<close>, \<open>slice\<close>, \<open>includes\<close> and
  the regular expressions of the source (none has the \<^verbatim>\<open>u\<close> flag) all work on code units.
  A code unit is modelled by its number. \<open>str\<close> turns an ASCII literal into such a string.
\<close>

type_synonym jsstring = "nat list"

definition str :: "string \<Rightarrow> jsstring" where
  "str s = map of_char s"

definition quoted :: "jsstring \<Rightarrow> jsstring" where
  "quoted s = [34] @ s @ [34]"

definition newline :: nat where
  "newline = 10"

text \<open>\<^verbatim>\<open>h.includes(n)\<close>, \<^verbatim>\<open>s.startsWith(p)\<close>, \<^verbatim>\<open>s.slice(0, e)\<close>, \<^verbatim>\<open>s.lastIndexOf(c)\<close>.\<close>

fun str_includes :: "jsstring \<Rightarrow> jsstring \<Rightarrow> bool" where
  "str_includes [] n = (n = [])"
| "str_includes (c # cs) n = (take (length n) (c # cs) = n \<or> str_includes cs n)"

definition startsWith :: "jsstring \<Rightarrow> jsstring \<Rightarrow> bool" where
  "startsWith s p = (take (length p) s = p)"

definition slice_to :: "jsstring \<Rightarrow> int \<Rightarrow> jsstring" where
  "slice_to s e = (if e < 0 then take (nat (int (length s) + e)) s else take (nat e) s)"

fun lastIndexOf :: "jsstring \<Rightarrow> nat \<Rightarrow> int" where
  "lastIndexOf [] c = - 1"
| "lastIndexOf (x # xs) c =
     (let r = lastIndexOf xs c in if 0 \<le> r then r + 1 else if x = c then 0 else - 1)"

text \<open>
  \<^verbatim>\<open>`${n}`\<close> for an integer \<open>n\<close>: the decimal digits, with a minus sign when negative.
  JavaScript numbers are doubles. The model has the integers among them, and this rendering
  is the one of JavaScript for the integers that a double holds exactly,
  \<open>\<bar>n\<bar> < 2\<^sup>5\<^sup>3\<close>; beyond them JavaScript rounds the digits, and from \<open>10\<^sup>2\<^sup>1\<close> on it writes
  an exponent. Statements about a rendered number carry that bound.
\<close>

function nat_to_string :: "nat \<Rightarrow> jsstring" where
  "nat_to_string n = (if n < 10 then [48 + n] else nat_to_string (n div 10) @ [48 + n mod 10])"
  by pat_completeness auto
termination
  by (relation "measure (\<lambda>n. n)") auto

declare nat_to_string.simps [simp del]

definition num_to_string :: "int \<Rightarrow> jsstring" where
  "num_to_string n = (if n < 0 then 45 # nat_to_string (nat (- n)) else nat_to_string (nat n))"

subsection \<open>Exceptions\<close>

text \<open>
  A thrown value is an \<^verbatim>\<open>Error\<close> with its message, or some other value, kept as its rendering
  in a template literal. \<open>errText\<close> is the source's
  \<^verbatim>\<open>error instanceof Error ? error.message : error\<close> inside a template literal.
\<close>

datatype exn = Error jsstring | Thrown jsstring

fun errText :: "exn \<Rightarrow> jsstring" where
  "errText (Error message) = message"
| "errText (Thrown v) = v"

fun messageIncludes :: "exn \<Rightarrow> jsstring \<Rightarrow> bool" where
  "messageIncludes (Error message) n = str_includes message n"
| "messageIncludes (Thrown v) n = False"

subsection \<open>JSON and the built-ins taken from the runtime\<close>

datatype json =
    JNull
  | JBool bool
  | JNum int
  | JStr jsstring
  | JArr "json list"
  | JObj "(jsstring \<times> json) list"

text \<open>
  \<^verbatim>\<open>JSON.parse\<close>, \<^verbatim>\<open>JSON.stringify\<close> and \<^verbatim>\<open>String.prototype.toLowerCase\<close> belong to the
  JavaScript runtime (a JSON grammar, number formatting, the Unicode case tables). The model
  takes them as a parameter; \<open>JSON_parse\<close> answers \<open>Inl\<close> with the \<^verbatim>\<open>SyntaxError\<close> it throws
  on a string that is not valid JSON.
\<close>

record js_runtime =
  JSON_parse :: "jsstring \<Rightarrow> exn + json"
  JSON_stringify :: "json \<Rightarrow> jsstring"
  toLowerCase :: "jsstring \<Rightarrow> jsstring"

section \<open>Regular expressions\<close>

text \<open>
  A backtracking matcher in the order of ECMAScript's: the results of \<open>rx_match\<close> are the states
  in which a sub-pattern can end, the preferred one first. A state is the position reached
  and the captures made (group, start, end), the latest first. A repetition does not
  repeat an iteration that consumed nothing.
\<close>

datatype rx =
    Chr "nat \<Rightarrow> bool"
  | Eps
  | Seq rx rx
  | Alt rx rx
  | Star rx
  | StarLazy rx
  | Group nat rx
  | Bol
  | Eol
  | WordB

type_synonym rx_state = "nat \<times> (nat \<times> nat \<times> nat) list"

definition is_word_char :: "nat \<Rightarrow> bool" where
  "is_word_char c \<longleftrightarrow>
     (65 \<le> c \<and> c \<le> 90) \<or> (97 \<le> c \<and> c \<le> 122) \<or> (48 \<le> c \<and> c \<le> 57) \<or> c = 95"

definition is_digit :: "nat \<Rightarrow> bool" where
  "is_digit c \<longleftrightarrow> 48 \<le> c \<and> c \<le> 57"

definition is_letter :: "nat \<Rightarrow> bool" where
  "is_letter c \<longleftrightarrow> (65 \<le> c \<and> c \<le> 90) \<or> (97 \<le> c \<and> c \<le> 122)"

definition is_upper :: "nat \<Rightarrow> bool" where
  "is_upper c \<longleftrightarrow> 65 \<le> c \<and> c \<le> 90"

text \<open>\<^verbatim>\<open>\s\<close>: the white space and line terminators of ECMAScript.\<close>

definition is_space :: "nat \<Rightarrow> bool" where
  "is_space c \<longleftrightarrow>
     (9 \<le> c \<and> c \<le> 13) \<or> c = 32 \<or> c = 160 \<or> c = 5760 \<or> (8192 \<le> c \<and> c \<le> 8202) \<or>
     c = 8232 \<or> c = 8233 \<or> c = 8239 \<or> c = 8287 \<or> c = 12288 \<or> c = 65279"

text \<open>\<^verbatim>\<open>.\<close>: any code unit but a line terminator.\<close>

definition is_dot :: "nat \<Rightarrow> bool" where
  "is_dot c \<longleftrightarrow> c \<noteq> 10 \<and> c \<noteq> 13 \<and> c \<noteq> 8232 \<and> c \<noteq> 8233"

definition word_at :: "jsstring \<Rightarrow> nat \<Rightarrow> bool" where
  "word_at s i \<longleftrightarrow> i < length s \<and> is_word_char (s ! i)"

function rx_match :: "jsstring \<Rightarrow> rx \<Rightarrow> rx_state \<Rightarrow> rx_state list" where
  "rx_match s (Chr p) st = (if fst st < length s \<and> p (s ! fst st) then [(fst st + 1, snd st)] else [])"
| "rx_match s Eps st = [st]"
| "rx_match s (Seq a b) st = concat (map (rx_match s b) (rx_match s a st))"
| "rx_match s (Alt a b) st = rx_match s a st @ rx_match s b st"
| "rx_match s (Star r) st =
     concat (map (\<lambda>st'. if fst st < fst st' \<and> fst st' \<le> length s then rx_match s (Star r) st' else [])
                 (rx_match s r st)) @ [st]"
| "rx_match s (StarLazy r) st =
     st # concat (map (\<lambda>st'. if fst st < fst st' \<and> fst st' \<le> length s
                              then rx_match s (StarLazy r) st' else [])
                      (rx_match s r st))"
| "rx_match s (Group n r) st = map (\<lambda>st'. (fst st', (n, fst st, fst st') # snd st')) (rx_match s r st)"
| "rx_match s Bol st = (if fst st = 0 then [st] else [])"
| "rx_match s Eol st = (if fst st = length s then [st] else [])"
| "rx_match s WordB st =
     (if (0 < fst st \<and> word_at s (fst st - 1)) \<noteq> word_at s (fst st) then [st] else [])"
  by pat_completeness auto
termination
  by (relation "inv_image (less_than <*lex*> less_than) (\<lambda>(s, r, st). (size r, length s - fst st))")
    auto

text \<open>The equations of the two repetitions unfold without end; they are applied by hand.\<close>

declare rx_match.simps(5,6) [simp del]

text \<open>
  \<^verbatim>\<open>re.exec(s)\<close> without the \<^verbatim>\<open>g\<close> flag: the first start position, from 0 on, at which the
  pattern matches, with the preferred match there.
\<close>

function rx_search :: "jsstring \<Rightarrow> rx \<Rightarrow> nat \<Rightarrow> (nat \<times> rx_state) option" where
  "rx_search s r i =
     (case rx_match s r (i, []) of
        st # _ \<Rightarrow> Some (i, st)
      | [] \<Rightarrow> if i < length s then rx_search s r (i + 1) else None)"
  by pat_completeness auto
termination
  by (relation "measure (\<lambda>(s, r, i). length s - i)") auto

declare rx_search.simps [simp del]

definition rx_exec :: "jsstring \<Rightarrow> rx \<Rightarrow> (nat \<times> rx_state) option" where
  "rx_exec s r = rx_search s r 0"

definition rx_test :: "jsstring \<Rightarrow> rx \<Rightarrow> bool" where
  "rx_test s r \<longleftrightarrow> rx_exec s r \<noteq> None"

text \<open>The text of capture group \<open>n\<close> of a match; \<open>None\<close> is JavaScript's \<^verbatim>\<open>undefined\<close>.\<close>

definition capture :: "jsstring \<Rightarrow> nat \<times> rx_state \<Rightarrow> nat \<Rightarrow> jsstring option" where
  "capture s m n =
     (case map_of (snd (snd m)) n of
        None \<Rightarrow> None
      | Some (a, b) \<Rightarrow> Some (take (b - a) (drop a s)))"

text \<open>\<^verbatim>\<open>s.replace(re, t)\<close> for a pattern without the \<^verbatim>\<open>g\<close> flag and a plain replacement.\<close>

definition rx_replace :: "jsstring \<Rightarrow> rx \<Rightarrow> jsstring \<Rightarrow> jsstring" where
  "rx_replace s r t =
     (case rx_exec s r of
        None \<Rightarrow> s
      | Some (i, st) \<Rightarrow> take i s @ t @ drop (fst st) s)"

definition Plus :: "rx \<Rightarrow> rx" where
  "Plus r = Seq r (Star r)"

definition PlusLazy :: "rx \<Rightarrow> rx" where
  "PlusLazy r = Seq r (StarLazy r)"

definition Opt :: "rx \<Rightarrow> rx" where
  "Opt r = Alt r Eps"

definition lit :: "nat \<Rightarrow> rx" where
  "lit c = Chr (\<lambda>x. x = c)"

text \<open>
  A letter of the pattern under the \<^verbatim>\<open>i\<close> flag matches the code units with the same
  canonical (upper-case) form. For an ASCII letter these are exactly its two cases, no code
  unit above 127 being canonicalised into ASCII. For a letter of the basic Cyrillic alphabet
  they are its two cases and the historic variants U+1C80 to U+1C86 that upper-case to it.
  \<open>lit_ci\<close> is used with these letters only.
\<close>

definition cyrillic_variants :: "nat \<Rightarrow> nat list" where
  "cyrillic_variants lower =
     map snd (filter (\<lambda>(l, v). l = lower)
       [(1074, 7296), (1076, 7297), (1086, 7298), (1089, 7299), (1090, 7300), (1090, 7301),
        (1098, 7302)])"

definition case_variants :: "nat \<Rightarrow> nat list" where
  "case_variants c =
     (if 97 \<le> c \<and> c \<le> 122 then [c, c - 32]
      else if 65 \<le> c \<and> c \<le> 90 then [c, c + 32]
      else if 1072 \<le> c \<and> c \<le> 1103 then [c, c - 32] @ cyrillic_variants c
      else if 1040 \<le> c \<and> c \<le> 1071 then [c, c + 32] @ cyrillic_variants (c + 32)
      else [c])"

definition lit_ci :: "nat \<Rightarrow> rx" where
  "lit_ci c = Chr (\<lambda>x. x \<in> set (case_variants c))"

fun seqs :: "rx list \<Rightarrow> rx" where
  "seqs [] = Eps"
| "seqs [r] = r"
| "seqs (r # rs) = Seq r (seqs rs)"

definition lits :: "jsstring \<Rightarrow> rx" where
  "lits s = seqs (map lit s)"

definition lits_ci :: "jsstring \<Rightarrow> rx" where
  "lits_ci s = seqs (map lit_ci s)"

fun alts :: "rx list \<Rightarrow> rx" where
  "alts [] = Chr (\<lambda>x. False)"
| "alts [r] = r"
| "alts (r # rs) = Alt r (alts rs)"

section \<open>Selector resolution\<close>

text \<open>
  A Playwright locator is a lazy description of elements; building one touches no page.
  The constructors are the calls of \<^verbatim>\<open>resolveLocator\<close>: \<^verbatim>\<open>page.getByRole(role, { name })\<close>
  (the name is absent in one branch), \<^verbatim>\<open>parent.getByRole(role, { name })\<close>,
  \<^verbatim>\<open>page.getByText(text)\<close>, \<^verbatim>\<open>page.getByText(text, { exact: false })\<close>, \<^verbatim>\<open>page.getByLabel\<close>,
  \<^verbatim>\<open>page.getByPlaceholder\<close>, \<^verbatim>\<open>page.locator(css)\<close>, and \<^verbatim>\<open>locator.first()\<close> of the actions.
\<close>

datatype locator =
    GetByRole jsstring "jsstring option"
  | GetByRoleIn locator jsstring jsstring
  | GetByText jsstring
  | GetByTextInexact jsstring
  | GetByLabel jsstring
  | GetByPlaceholder jsstring
  | Locator jsstring
  | First locator

definition ARIA_ROLES :: "jsstring list" where
  "ARIA_ROLES = map str
     [''alert'', ''alertdialog'', ''application'', ''article'', ''banner'',
      ''blockquote'', ''button'', ''caption'', ''cell'', ''checkbox'',
      ''code'', ''columnheader'', ''combobox'', ''complementary'',
      ''contentinfo'', ''definition'', ''deletion'', ''dialog'',
      ''directory'', ''document'', ''emphasis'', ''feed'', ''figure'',
      ''form'', ''generic'', ''grid'', ''gridcell'', ''group'', ''heading'',
      ''img'', ''insertion'', ''link'', ''list'', ''listbox'', ''listitem'',
      ''log'', ''main'', ''marquee'', ''math'', ''menu'', ''menubar'',
      ''menuitem'', ''menuitemcheckbox'', ''menuitemradio'', ''meter'',
      ''navigation'', ''none'', ''note'', ''option'', ''paragraph'',
      ''presentation'', ''progressbar'', ''radio'', ''radiogroup'',
      ''region'', ''row'', ''rowgroup'', ''rowheader'', ''scrollbar'',
      ''search'', ''searchbox'', ''separator'', ''slider'', ''spinbutton'',
      ''status'', ''strong'', ''subscript'', ''superscript'', ''switch'',
      ''tab'', ''table'', ''tablist'', ''tabpanel'', ''term'', ''textbox'',
      ''time'', ''timer'', ''toolbar'', ''tooltip'', ''tree'', ''treegrid'',
      ''treeitem'']"

text \<open>The patterns of \<^verbatim>\<open>resolveLocator\<close>, in the order of the source.\<close>

definition re_list_prefix :: rx where \<comment> \<open>\<^verbatim>\<open>/^-\s+/\<close>\<close>
  "re_list_prefix = seqs [Bol, lit 45, Plus (Chr is_space)]"

definition re_root :: rx where \<comment> \<open>\<^verbatim>\<open>/\bROOT\b/i\<close>\<close>
  "re_root = seqs [WordB, lit_ci 82, lit_ci 79, lit_ci 79, lit_ci 84, WordB]"

definition re_tree_path :: rx where \<comment> \<open>\<^verbatim>\<open>/^[A-Z]+\s*>\s*[A-Z]+/i\<close>\<close>
  "re_tree_path =
     seqs [Bol, Plus (Chr is_letter), Star (Chr is_space), lit 62, Star (Chr is_space),
           Plus (Chr is_letter)]"

definition re_number :: rx where \<comment> \<open>\<^verbatim>\<open>/\b\d+\b/\<close>\<close>
  "re_number = seqs [WordB, Plus (Chr is_digit), WordB]"

definition re_nested :: rx where \<comment> \<open>\<^verbatim>\<open>/^(\w+)\s+"(.+?)"\s+(\w+)\s+"(.+)"$/\<close>\<close>
  "re_nested =
     seqs [Bol, Group 1 (Plus (Chr is_word_char)), Plus (Chr is_space),
           lit 34, Group 2 (PlusLazy (Chr is_dot)), lit 34, Plus (Chr is_space),
           Group 3 (Plus (Chr is_word_char)), Plus (Chr is_space),
           lit 34, Group 4 (Plus (Chr is_dot)), lit 34, Eol]"

definition re_aria :: rx where \<comment> \<open>\<^verbatim>\<open>/^(\w+)\s+"(.+)"(\s+\[.*\])?$/\<close>\<close>
  "re_aria =
     seqs [Bol, Group 1 (Plus (Chr is_word_char)), Plus (Chr is_space),
           lit 34, Group 2 (Plus (Chr is_dot)), lit 34,
           Opt (Group 3 (seqs [Plus (Chr is_space), lit 91, Star (Chr is_dot), lit 93])), Eol]"

definition re_aria_no_quote :: rx where \<comment> \<open>\<^verbatim>\<open>/^(\w+)\s+(.+)$/\<close>\<close>
  "re_aria_no_quote =
     seqs [Bol, Group 1 (Plus (Chr is_word_char)), Plus (Chr is_space),
           Group 2 (Plus (Chr is_dot)), Eol]"

definition re_role :: rx where \<comment> \<open>\<^verbatim>\<open>/^role=(\w+)(?:\[name=['"](.+)['"]\])?$/\<close>\<close>
  "re_role =
     seqs [Bol, lits (str ''role=''), Group 1 (Plus (Chr is_word_char)),
           Opt (seqs [lits (str ''[name=''), Chr (\<lambda>c. c = 39 \<or> c = 34),
                      Group 2 (Plus (Chr is_dot)), Chr (\<lambda>c. c = 39 \<or> c = 34), lit 93]),
           Eol]"

definition re_css :: rx where \<comment> \<open>\<^verbatim>\<open>/[#.\[\]>:=@]/\<close>\<close>
  "re_css = Chr (\<lambda>c. c \<in> set (str ''#.[]>:=@''))"

definition invalid_selector_message :: "jsstring \<Rightarrow> jsstring" where
  "invalid_selector_message selector =
     str ''Invalid selector '' @ quoted selector @ [32, 8212, 32] @
     str ''this looks like a tree hierarchy path, not a valid selector. '' @
     str ''Use ARIA role+name format instead (e.g., button '' @ quoted (str ''Submit'') @
     str '', link '' @ quoted (str ''Home'') @ str ''). '' @
     str ''Use read_page to see the actual element labels on the page.''"

text \<open>
  The three ARIA forms. Each answers \<open>None\<close> where the source falls through to the next
  form: the pattern does not match, or a role is not a known one.
\<close>

definition nested_aria :: "js_runtime \<Rightarrow> jsstring \<Rightarrow> locator option" where
  "nested_aria rt selector =
     (case rx_exec selector re_nested of
        None \<Rightarrow> None
      | Some nestedMatch \<Rightarrow>
          (case (capture selector nestedMatch 1, capture selector nestedMatch 2,
                 capture selector nestedMatch 3, capture selector nestedMatch 4) of
             (Some parentRole, Some parentName, Some childRole, Some childName) \<Rightarrow>
               if toLowerCase rt parentRole \<in> set ARIA_ROLES \<and>
                  toLowerCase rt childRole \<in> set ARIA_ROLES
               then Some (GetByRoleIn (GetByRole (toLowerCase rt parentRole) (Some parentName))
                            (toLowerCase rt childRole) childName)
               else None
           | _ \<Rightarrow> None))"

definition quoted_aria :: "js_runtime \<Rightarrow> jsstring \<Rightarrow> locator option" where
  "quoted_aria rt selector =
     (case rx_exec selector re_aria of
        None \<Rightarrow> None
      | Some ariaMatch \<Rightarrow>
          (case (capture selector ariaMatch 1, capture selector ariaMatch 2) of
             (Some role, Some name) \<Rightarrow>
               if toLowerCase rt role \<in> set ARIA_ROLES
               then Some (GetByRole (toLowerCase rt role) (Some name))
               else None
           | _ \<Rightarrow> None))"

definition unquoted_aria :: "js_runtime \<Rightarrow> jsstring \<Rightarrow> locator option" where
  "unquoted_aria rt selector =
     (case rx_exec selector re_aria_no_quote of
        None \<Rightarrow> None
      | Some ariaNoQuoteMatch \<Rightarrow>
          (case (capture selector ariaNoQuoteMatch 1, capture selector ariaNoQuoteMatch 2) of
             (Some role, Some name) \<Rightarrow>
               if toLowerCase rt role \<in> set ARIA_ROLES \<and> \<not> str_includes name (str ''='')
               then Some (GetByRole (toLowerCase rt role) (Some name))
               else None
           | _ \<Rightarrow> None))"

text \<open>
  The \<^verbatim>\<open>role=\<close> prefix: \<^verbatim>\<open>name ? page.getByRole(role, { name }) : page.getByRole(role)\<close>,
  where the name is \<^verbatim>\<open>undefined\<close> when the optional part did not take part in the match.
\<close>

definition role_prefix :: "jsstring \<Rightarrow> locator option" where
  "role_prefix selector =
     (if startsWith selector (str ''role='') then
        (case rx_exec selector re_role of
           None \<Rightarrow> None
         | Some roleMatch \<Rightarrow>
             (case capture selector roleMatch 1 of
                None \<Rightarrow> None
              | Some role \<Rightarrow>
                  (case capture selector roleMatch 2 of
                     None \<Rightarrow> Some (GetByRole role None)
                   | Some name \<Rightarrow>
                       if name \<noteq> [] then Some (GetByRole role (Some name))
                       else Some (GetByRole role None))))
      else None)"

definition plain_locator :: "jsstring \<Rightarrow> locator" where
  "plain_locator selector =
     (if startsWith selector (str ''text='') then GetByText (drop 5 selector)
      else if startsWith selector (str ''label='') then GetByLabel (drop 6 selector)
      else if startsWith selector (str ''placeholder='') then GetByPlaceholder (drop 12 selector)
      else if rx_test selector re_css then Locator selector
      else GetByTextInexact selector)"

definition resolveLocator :: "js_runtime \<Rightarrow> jsstring \<Rightarrow> exn + locator" where
  "resolveLocator rt selector0 =
     (let selector = rx_replace selector0 re_list_prefix [] in
      if rx_test selector re_root \<or> rx_test selector re_tree_path \<and> rx_test selector re_number
      then Inl (Error (invalid_selector_message selector))
      else
        (case nested_aria rt selector of
           Some l \<Rightarrow> Inr l
         | None \<Rightarrow>
             (case quoted_aria rt selector of
                Some l \<Rightarrow> Inr l
              | None \<Rightarrow>
                  (case unquoted_aria rt selector of
                     Some l \<Rightarrow> Inr l
                   | None \<Rightarrow>
                       (case role_prefix selector of
                          Some l \<Rightarrow> Inr l
                        | None \<Rightarrow> Inr (plain_locator selector))))))"

section \<open>The browser and the user as an environment\<close>

text \<open>
  The browser driver and the user are outside the program. Every call the program makes to
  them is appended to a trace, and what the call answers is given by a \<open>driver\<close>: any
  function of the calls made so far and of the call. So a result about all drivers is a
  result about every behaviour of the browser, failures included. A call either is fulfilled
  or is rejected with an exception. The operations of a page carry the options the source
  passes (timeouts in milliseconds, the keystroke delay).
\<close>

type_synonym page_id = nat

datatype page_op =
    Goto jsstring int
  | WaitForTimeout int
  | Title
  | GoBack int
  | MouseWheel int int
  | EvaluateScrollY
  | Screenshot
  | KeyboardPress jsstring
  | KeyboardType jsstring int
  | Click locator int
  | Fill locator jsstring int
  | Hover locator int
  | SelectOption locator jsstring int
  | ScrollIntoViewIfNeeded locator int
  | DispatchEvent locator jsstring
  | EvaluateClick locator
  | WaitForLoadState
  | AriaSnapshot int
  | EvaluateWalk
  | EvaluateScrollInfo
  | ClosePage

datatype call =
    PageOp page_id page_op
  | ConfirmCallback jsstring
  | AskUserCallback jsstring

text \<open>
  \<open>completes\<close> answers the calls whose value the source ignores, \<open>answers_string\<close> and
  \<open>answers_number\<close> those that give a string or a number (a scroll offset, the length of a
  screenshot buffer; integers in the model). \<open>page_url\<close> is the synchronous getter
  \<^verbatim>\<open>page.url()\<close> and \<open>open_pages\<close> is \<^verbatim>\<open>context.pages().filter(p => !p.isClosed())\<close>: both
  read the browser's state without acting on it and are not recorded in the trace.
  \<open>settles_within\<close> tells whether a call settles before a timer of the given milliseconds.
\<close>

record driver =
  completes :: "call list \<Rightarrow> call \<Rightarrow> exn option"
  answers_string :: "call list \<Rightarrow> call \<Rightarrow> exn + jsstring"
  answers_number :: "call list \<Rightarrow> call \<Rightarrow> exn + int"
  page_url :: "call list \<Rightarrow> page_id \<Rightarrow> jsstring"
  open_pages :: "call list \<Rightarrow> page_id list"
  settles_within :: "call list \<Rightarrow> call \<Rightarrow> int \<Rightarrow> bool"

text \<open>
  An asynchronous function of the source is a function from the trace so far to its outcome
  (\<open>Inl\<close> the exception it throws, \<open>Inr\<close> the value it returns) and the trace after it.
\<close>

type_synonym 'a io = "call list \<Rightarrow> (exn + 'a) \<times> call list"

definition io_return :: "'a \<Rightarrow> 'a io" where
  "io_return x = (\<lambda>w. (Inr x, w))"

definition io_throw :: "exn \<Rightarrow> 'a io" where
  "io_throw e = (\<lambda>w. (Inl e, w))"

definition io_of :: "exn + 'a \<Rightarrow> 'a io" where
  "io_of r = (\<lambda>w. (r, w))"

definition io_bind :: "'a io \<Rightarrow> ('a \<Rightarrow> 'b io) \<Rightarrow> 'b io" where
  "io_bind m f = (\<lambda>w. case m w of (Inl e, w') \<Rightarrow> (Inl e, w') | (Inr x, w') \<Rightarrow> f x w')"

text \<open>\<^verbatim>\<open>try { m } catch (e) { h }\<close>\<close>

definition io_catch :: "'a io \<Rightarrow> (exn \<Rightarrow> 'a io) \<Rightarrow> 'a io" where
  "io_catch m h = (\<lambda>w. case m w of (Inl e, w') \<Rightarrow> h e w' | (Inr x, w') \<Rightarrow> (Inr x, w'))"

definition call_unit :: "driver \<Rightarrow> call \<Rightarrow> unit io" where
  "call_unit d c = (\<lambda>w. (case completes d w c of Some e \<Rightarrow> Inl e | None \<Rightarrow> Inr (), w @ [c]))"

definition call_string :: "driver \<Rightarrow> call \<Rightarrow> jsstring io" where
  "call_string d c = (\<lambda>w. (answers_string d w c, w @ [c]))"

definition call_number :: "driver \<Rightarrow> call \<Rightarrow> int io" where
  "call_number d c = (\<lambda>w. (answers_number d w c, w @ [c]))"

definition read_url :: "driver \<Rightarrow> page_id \<Rightarrow> jsstring io" where
  "read_url d page = (\<lambda>w. (Inr (page_url d w page), w))"

section \<open>The action library (\<^verbatim>\<open>BrowserActions\<close>)\<close>

text \<open>
  Each method takes the driver, the runtime and \<^verbatim>\<open>this.page\<close>, then the arguments of the
  source with their TypeScript types.
\<close>

definition navigate :: "driver \<Rightarrow> page_id \<Rightarrow> jsstring \<Rightarrow> jsstring io" where
  "navigate d page url0 =
     io_catch
       (let url = (if \<not> startsWith url0 (str ''http://'') \<and> \<not> startsWith url0 (str ''https://'')
                   then str ''https://'' @ url0 else url0)
        in io_bind (call_unit d (PageOp page (Goto url 30000))) (\<lambda>_.
           io_bind (call_unit d (PageOp page (WaitForTimeout 1000))) (\<lambda>_.
           io_bind (call_string d (PageOp page Title)) (\<lambda>title.
           io_return (str ''Navigated to '' @ url @ [32, 8212, 32] @ str ''page title: '' @
                      quoted title)))))
       (\<lambda>error. io_return (str ''Navigation failed: '' @ errText error))"

text \<open>
  The part of \<^verbatim>\<open>click\<close> that runs when the first attempt timed out: \<^verbatim>\<open>dispatchEvent\<close>, then
  \<^verbatim>\<open>evaluate(el => el.click())\<close>, then \<^verbatim>\<open>first().dispatchEvent\<close>. \<open>error\<close> is the exception
  of the first attempt.
\<close>

definition click_after_timeout ::
    "driver \<Rightarrow> js_runtime \<Rightarrow> page_id \<Rightarrow> jsstring \<Rightarrow> exn \<Rightarrow> jsstring io" where
  "click_after_timeout d rt page selector error =
     io_bind (read_url d page) (\<lambda>urlBefore.
       io_catch
         (io_bind (io_of (resolveLocator rt selector)) (\<lambda>locator.
          io_bind (call_unit d (PageOp page (WaitForTimeout 500))) (\<lambda>_.
          io_bind (io_catch (call_unit d (PageOp page (ScrollIntoViewIfNeeded locator 2000)))
                            (\<lambda>_. io_return ())) (\<lambda>_.
          io_bind (call_unit d (PageOp page (DispatchEvent locator (str ''click'')))) (\<lambda>_.
          io_bind (call_unit d (PageOp page (WaitForTimeout 1000))) (\<lambda>_.
          io_bind (read_url d page) (\<lambda>urlAfter.
          if urlAfter \<noteq> urlBefore then
            io_return (str ''Clicked on '' @ quoted selector @
                       str '' successfully (dispatchEvent fallback)'')
          else
            io_bind (call_unit d (PageOp page (EvaluateClick locator))) (\<lambda>_.
            io_bind (call_unit d (PageOp page (WaitForTimeout 1000))) (\<lambda>_.
            io_bind (read_url d page) (\<lambda>urlFinal.
            if urlFinal \<noteq> urlBefore then
              io_return (str ''Clicked on '' @ quoted selector @
                         str '' successfully (evaluate fallback)'')
            else if str_includes (toLowerCase rt selector) (str ''button'') then
              io_return (str ''Clicked on '' @ quoted selector @
                         str '' successfully (dispatchEvent on button)'')
            else
              io_return (str ''Click on '' @ quoted selector @
                str '' was dispatched but the page did NOT change. The element may be covered by an overlay or the selector is wrong. Try a different selector (e.g., text= with the visible text, or use read_page to find the correct element).'')))))))))))
         (\<lambda>dispatchError.
            io_catch
              (io_bind (io_of (resolveLocator rt selector)) (\<lambda>locator.
               io_bind (call_unit d (PageOp page (DispatchEvent (First locator) (str ''click'')))) (\<lambda>_.
               io_bind (call_unit d (PageOp page (WaitForTimeout 1000))) (\<lambda>_.
               if str_includes (toLowerCase rt selector) (str ''button'') then
                 io_return (str ''Clicked on '' @ quoted selector @
                            str '' successfully (dispatchEvent on first match)'')
               else
                 io_bind (read_url d page) (\<lambda>urlCheck.
                 if urlCheck \<noteq> urlBefore then
                   io_return (str ''Clicked on '' @ quoted selector @
                              str '' successfully (dispatchEvent on first match)'')
                 else
                   io_return (str ''Click on '' @ quoted selector @
                     str '' was dispatched but the page did NOT change. Try a different selector.''))))))
              (\<lambda>lastError.
                 io_return (str ''Click failed on '' @ quoted selector @ str '': '' @ errText error))))"

definition click :: "driver \<Rightarrow> js_runtime \<Rightarrow> page_id \<Rightarrow> jsstring \<Rightarrow> jsstring io" where
  "click d rt page selector =
     io_catch
       (io_bind (io_of (resolveLocator rt selector)) (\<lambda>locator.
        io_bind (call_unit d (PageOp page (Click locator 7000))) (\<lambda>_.
        io_bind (call_unit d (PageOp page (WaitForTimeout 800))) (\<lambda>_.
        io_return (str ''Clicked on '' @ quoted selector @ str '' successfully'')))))
       (\<lambda>error.
          if messageIncludes error (str ''strict mode violation'') then
            io_catch
              (io_bind (io_of (resolveLocator rt selector)) (\<lambda>locator.
               io_bind (call_unit d (PageOp page (Click (First locator) 7000))) (\<lambda>_.
               io_bind (call_unit d (PageOp page (WaitForTimeout 800))) (\<lambda>_.
               io_return (str ''Clicked on the FIRST match for '' @ quoted selector @
                 str '' (multiple elements found). TIP: For listing pages with many identical buttons, navigate to the individual item page first, then perform the action there.'')))))
              (\<lambda>retryError.
                 io_return (str ''Click failed on '' @ quoted selector @
                            str '' (strict mode, first() also failed): '' @ errText retryError))
          else if messageIncludes error (str ''Timeout'') then
            click_after_timeout d rt page selector error
          else
            io_return (str ''Click failed on '' @ quoted selector @ str '': '' @ errText error))"

definition type :: "driver \<Rightarrow> js_runtime \<Rightarrow> page_id \<Rightarrow> jsstring \<Rightarrow> jsstring \<Rightarrow> jsstring io" where
  "type d rt page selector text =
     io_catch
       (io_bind (io_of (resolveLocator rt selector)) (\<lambda>locator.
        io_bind (call_unit d (PageOp page (Fill locator text 5000))) (\<lambda>_.
        io_return (str ''Typed '' @ quoted text @ str '' into '' @ quoted selector))))
       (\<lambda>error.
          if messageIncludes error (str ''strict mode violation'') then
            io_catch
              (io_bind (io_of (resolveLocator rt selector)) (\<lambda>locator.
               io_bind (call_unit d (PageOp page (Fill (First locator) text 5000))) (\<lambda>_.
               io_return (str ''Typed '' @ quoted text @ str '' into the FIRST match for '' @
                 quoted selector @
                 str '' (multiple elements found). TIP: Use a more specific selector.''))))
              (\<lambda>retryError.
                 io_return (str ''Type failed on '' @ quoted selector @
                            str '' (strict mode, first() also failed): '' @ errText retryError))
          else
            io_catch
              (io_bind (io_of (resolveLocator rt selector)) (\<lambda>locator.
               io_bind (call_unit d (PageOp page (Click locator 5000))) (\<lambda>_.
               io_bind (call_unit d (PageOp page (KeyboardType text 30))) (\<lambda>_.
               io_return (str ''Typed '' @ quoted text @ str '' into '' @ quoted selector @
                          str '' (via keyboard)'')))))
              (\<lambda>retryError.
                 io_return (str ''Type failed on '' @ quoted selector @ str '': '' @ errText error)))"

definition scroll :: "driver \<Rightarrow> page_id \<Rightarrow> jsstring \<Rightarrow> jsstring io" where
  "scroll d page direction =
     io_catch
       (let delta = (if direction = str ''down'' then 600 else - 600)
        in io_bind (call_unit d (PageOp page (MouseWheel 0 delta))) (\<lambda>_.
           io_bind (call_unit d (PageOp page (WaitForTimeout 500))) (\<lambda>_.
           io_bind (call_number d (PageOp page EvaluateScrollY)) (\<lambda>scrollY.
           io_return (str ''Scrolled '' @ direction @ str ''. Current scroll position: '' @
                      num_to_string scrollY @ str ''px'')))))
       (\<lambda>error. io_return (str ''Scroll failed: '' @ errText error))"

definition goBack :: "driver \<Rightarrow> page_id \<Rightarrow> jsstring io" where
  "goBack d page =
     io_catch
       (io_bind (read_url d page) (\<lambda>urlBefore.
        io_bind (call_unit d (PageOp page (GoBack 10000))) (\<lambda>_.
        io_bind (call_unit d (PageOp page (WaitForTimeout 800))) (\<lambda>_.
        io_bind (read_url d page) (\<lambda>urlAfter.
        io_bind (call_string d (PageOp page Title)) (\<lambda>title.
        if urlAfter = urlBefore then
          io_return (str ''go_back did NOT work '' @ [8212] @ str '' the page is still '' @
            quoted title @ str '' ('' @ urlAfter @
            str ''). This site uses client-side routing. Use navigate() with the target URL, or click a link/button to go where you need.'')
        else
          io_return (str ''Navigated back to '' @ quoted title @ str '' ('' @ urlAfter @
                     str '')'')))))))
       (\<lambda>error. io_return (str ''Go back failed: '' @ errText error))"

definition selectOption ::
    "driver \<Rightarrow> js_runtime \<Rightarrow> page_id \<Rightarrow> jsstring \<Rightarrow> jsstring \<Rightarrow> jsstring io" where
  "selectOption d rt page selector v =
     io_catch
       (io_bind (io_of (resolveLocator rt selector)) (\<lambda>locator.
        io_bind (call_unit d (PageOp page (SelectOption locator v 5000))) (\<lambda>_.
        io_return (str ''Selected '' @ quoted v @ str '' in '' @ quoted selector))))
       (\<lambda>error. io_return (str ''Select option failed on '' @ quoted selector @ str '': '' @
                            errText error))"

definition pressKey :: "driver \<Rightarrow> page_id \<Rightarrow> jsstring \<Rightarrow> jsstring io" where
  "pressKey d page key =
     io_catch
       (io_bind (call_unit d (PageOp page (KeyboardPress key))) (\<lambda>_.
        io_bind (call_unit d (PageOp page (WaitForTimeout 500))) (\<lambda>_.
        io_return (str ''Pressed key '' @ quoted key))))
       (\<lambda>error. io_return (str ''Press key failed: '' @ errText error))"

definition hover :: "driver \<Rightarrow> js_runtime \<Rightarrow> page_id \<Rightarrow> jsstring \<Rightarrow> jsstring io" where
  "hover d rt page selector =
     io_catch
       (io_bind (io_of (resolveLocator rt selector)) (\<lambda>locator.
        io_bind (call_unit d (PageOp page (Hover locator 5000))) (\<lambda>_.
        io_return (str ''Hovered over '' @ quoted selector))))
       (\<lambda>error.
          if messageIncludes error (str ''strict mode violation'') then
            io_catch
              (io_bind (io_of (resolveLocator rt selector)) (\<lambda>locator.
               io_bind (call_unit d (PageOp page (Hover (First locator) 5000))) (\<lambda>_.
               io_return (str ''Hovered over the FIRST match for '' @ quoted selector @
                 str '' (multiple elements found). TIP: Use a more specific selector.''))))
              (\<lambda>retryError.
                 io_return (str ''Hover failed on '' @ quoted selector @
                            str '' (strict mode, first() also failed): '' @ errText retryError))
          else
            io_return (str ''Hover failed on '' @ quoted selector @ str '': '' @ errText error))"

text \<open>
  \<^verbatim>\<open>wait\<close> has no \<^verbatim>\<open>try\<close>: the two awaits are its whole body. \<^verbatim>\<open>ms\<close> is a JavaScript
  number that nothing validates; the model has the integers, for which \<^verbatim>\<open>Math.min\<close> is \<open>min\<close>,
  and its rendering of \<open>cappedMs\<close> is the one of JavaScript above \<open>- 2\<^sup>5\<^sup>3\<close>. A fractional
  number and \<^verbatim>\<open>NaN\<close> are outside the model.
\<close>

definition wait :: "driver \<Rightarrow> page_id \<Rightarrow> int \<Rightarrow> jsstring io" where
  "wait d page ms =
     (let cappedMs = min ms 10000
      in io_bind (call_unit d (PageOp page (WaitForTimeout cappedMs))) (\<lambda>_.
         io_return (str ''Waited '' @ num_to_string cappedMs @ str ''ms'')))"

text \<open>\<^verbatim>\<open>Math.round(buffer.length / 1024)\<close> rounds a half up.\<close>

definition screenshot :: "driver \<Rightarrow> page_id \<Rightarrow> jsstring io" where
  "screenshot d page =
     io_catch
       (io_bind (call_number d (PageOp page Screenshot)) (\<lambda>bufferLength.
        let sizeKb = (2 * bufferLength + 1024) div 2048
        in io_return (str ''Screenshot taken ('' @ num_to_string sizeKb @
                      str ''KB). The page is visible in the browser window.'')))
       (\<lambda>error. io_return (str ''Screenshot failed: '' @ errText error))"

section \<open>The page extractor (\<^verbatim>\<open>PageExtractor\<close>)\<close>

definition truncation_notice :: jsstring where
  "truncation_notice = [newline, newline] @ str ''[... content truncated due to length ...]''"

definition truncateToTokenBudget :: "int \<Rightarrow> jsstring \<Rightarrow> jsstring" where
  "truncateToTokenBudget tokenBudget content =
     (let maxChars = tokenBudget * 4 in
      if int (length content) \<le> maxChars then content
      else
        (let truncated = slice_to content maxChars;
             lastNewline = lastIndexOf truncated newline;
             cleanTruncated = (if 0 < lastNewline then slice_to truncated lastNewline
                               else truncated)
         in cleanTruncated @ truncation_notice))"

text \<open>
  \<^verbatim>\<open>withTimeout(promise, ms, fallback)\<close> for a promise that is one call: the call is made, and
  the fallback is the result when the call does not settle within \<open>ms\<close>.
\<close>

definition timed_unit :: "driver \<Rightarrow> call \<Rightarrow> int \<Rightarrow> unit io" where
  "timed_unit d c ms =
     (\<lambda>w. if settles_within d w c ms then call_unit d c w else (Inr (), w @ [c]))"

definition timed_string :: "driver \<Rightarrow> call \<Rightarrow> int \<Rightarrow> jsstring \<Rightarrow> jsstring io" where
  "timed_string d c ms fallback =
     (\<lambda>w. if settles_within d w c ms then call_string d c w else (Inr fallback, w @ [c]))"

text \<open>
  \<^verbatim>\<open>PageExtractor.extract\<close>. The walk of \<^verbatim>\<open>fallbackExtract\<close> and the scroll arithmetic run inside the page
  (\<^verbatim>\<open>page.evaluate\<close>); the model has them as the calls \<open>EvaluateWalk\<close> and
  \<open>EvaluateScrollInfo\<close>, answered with the string they build.
\<close>

definition extractPage :: "driver \<Rightarrow> int \<Rightarrow> page_id \<Rightarrow> jsstring io" where
  "extractPage d tokenBudget page =
     io_catch
       (io_bind (io_catch (timed_unit d (PageOp page WaitForLoadState) 10000)
                          (\<lambda>_. io_return ())) (\<lambda>_.
        io_bind (read_url d page) (\<lambda>url.
        io_bind (timed_string d (PageOp page Title) 5000 (str ''Loading...'')) (\<lambda>title.
        io_bind
          (io_catch
             (io_bind (timed_string d (PageOp page (AriaSnapshot 10000)) 15000 []) (\<lambda>ariaTree.
              if ariaTree = [] then io_throw (Error (str ''ARIA snapshot returned empty''))
              else io_return ariaTree))
             (\<lambda>_. timed_string d (PageOp page EvaluateWalk) 10000
                     (str ''[Page content unavailable]''))) (\<lambda>ariaTree.
        let truncated = truncateToTokenBudget tokenBudget ariaTree in
        io_bind (timed_string d (PageOp page EvaluateScrollInfo) 5000
                   (str ''Scroll: unknown'')) (\<lambda>scrollInfo.
        io_return (str ''Page: '' @ title @ [newline] @ str ''URL: '' @ url @ [newline] @
                   scrollInfo @ [newline] @ [newline] @ str ''Accessibility Tree:'' @
                   [newline] @ truncated)))))))
       (\<lambda>error. io_return (str ''Error extracting page content: '' @ errText error))"

section \<open>Tool calls and the security guard (\<^verbatim>\<open>SecurityGuard\<close>)\<close>

text \<open>
  \<^verbatim>\<open>ToolCall\<close> is \<^verbatim>\<open>{ id, type: 'function', function: { name, arguments } }\<close>.
\<close>

record ToolCall =
  tc_id :: jsstring
  fn_name :: jsstring
  fn_arguments :: jsstring

text \<open>
  The tables of the guard. The Russian words are written as their code units:
  udalit', udalenie, oplatit', oplata, otpravit', podtverdit', kupit', zakazat', otmenit',
  otpisat'sya, perevesti, perevod, podpisat', soglasit'sya, udalit' akkaunt, sbrosit'.
\<close>

definition DESTRUCTIVE_KEYWORDS :: "jsstring list" where
  "DESTRUCTIVE_KEYWORDS =
     [ [1091, 1076, 1072, 1083, 1080, 1090, 1100],
      [1091, 1076, 1072, 1083, 1077, 1085, 1080, 1077],
      [1086, 1087, 1083, 1072, 1090, 1080, 1090, 1100], [1086, 1087, 1083, 1072, 1090, 1072],
      [1086, 1090, 1087, 1088, 1072, 1074, 1080, 1090, 1100],
      [1087, 1086, 1076, 1090, 1074, 1077, 1088, 1076, 1080, 1090, 1100],
      [1082, 1091, 1087, 1080, 1090, 1100], [1079, 1072, 1082, 1072, 1079, 1072, 1090, 1100],
      [1086, 1090, 1084, 1077, 1085, 1080, 1090, 1100],
      [1086, 1090, 1087, 1080, 1089, 1072, 1090, 1100, 1089, 1103],
      [1087, 1077, 1088, 1077, 1074, 1077, 1089, 1090, 1080],
      [1087, 1077, 1088, 1077, 1074, 1086, 1076],
      [1087, 1086, 1076, 1087, 1080, 1089, 1072, 1090, 1100],
      [1089, 1086, 1075, 1083, 1072, 1089, 1080, 1090, 1100, 1089, 1103],
      [1091, 1076, 1072, 1083, 1080, 1090, 1100, 32, 1072, 1082, 1082, 1072, 1091, 1085, 1090],
      [1089, 1073, 1088, 1086, 1089, 1080, 1090, 1100], str ''delete'', str ''remove'',
      str ''pay'', str ''payment'', str ''checkout'', str ''submit'', str ''send'',
      str ''purchase'', str ''buy'', str ''order'', str ''confirm'', str ''cancel'',
      str ''unsubscribe'', str ''transfer'', str ''sign'', str ''agree'',
      str ''delete account'', str ''reset'']"

text \<open>
  The \<^verbatim>\<open>click\<close> pattern, case-insensitive: udalit', delete, pay, oplat, submit, otprav,
  kupit', buy, checkout, zakaz, order, confirm, podtverd. The \<^verbatim>\<open>press_key\<close> pattern is
  \<^verbatim>\<open>/Enter/i\<close>.
\<close>

definition DESTRUCTIVE_TOOL_PATTERNS :: "(jsstring \<times> rx) list" where
  "DESTRUCTIVE_TOOL_PATTERNS =
     [(str ''click'',
       alts (map lits_ci
         [ [1091, 1076, 1072, 1083, 1080, 1090, 1100], str ''delete'', str ''pay'',
          [1086, 1087, 1083, 1072, 1090], str ''submit'', [1086, 1090, 1087, 1088, 1072, 1074],
          [1082, 1091, 1087, 1080, 1090, 1100], str ''buy'', str ''checkout'',
          [1079, 1072, 1082, 1072, 1079], str ''order'', str ''confirm'',
          [1087, 1086, 1076, 1090, 1074, 1077, 1088, 1076]])),
      (str ''press_key'', lits_ci (str ''Enter''))]"

text \<open>
  The loop over the patterns and the loop over the keywords of \<^verbatim>\<open>isDestructiveAction\<close>,
  each returning at the first hit. The words of the page test are checkout, oplat, korzin,
  udalen, podtverzhd.
\<close>

fun tool_pattern_loop :: "(jsstring \<times> rx) list \<Rightarrow> jsstring \<Rightarrow> jsstring \<Rightarrow> bool" where
  "tool_pattern_loop [] toolName argsStr = False"
| "tool_pattern_loop (pattern # rest) toolName argsStr =
     (if toolName = fst pattern \<and> rx_test argsStr (snd pattern) then True
      else tool_pattern_loop rest toolName argsStr)"

fun keyword_loop :: "jsstring list \<Rightarrow> jsstring \<Rightarrow> jsstring \<Rightarrow> jsstring \<Rightarrow> bool" where
  "keyword_loop [] toolName argsLower contextLower = False"
| "keyword_loop (keyword # rest) toolName argsLower contextLower =
     (if str_includes argsLower keyword then True
      else if str_includes contextLower keyword \<and> toolName = str ''click'' \<and>
              (str_includes contextLower (str ''checkout'') \<or>
               str_includes contextLower [1086, 1087, 1083, 1072, 1090] \<or>
               str_includes contextLower [1082, 1086, 1088, 1079, 1080, 1085] \<or>
               str_includes contextLower [1091, 1076, 1072, 1083, 1077, 1085] \<or>
               str_includes contextLower [1087, 1086, 1076, 1090, 1074, 1077, 1088, 1078, 1076])
      then True
      else keyword_loop rest toolName argsLower contextLower)"

definition isDestructiveAction :: "js_runtime \<Rightarrow> jsstring \<Rightarrow> jsstring \<Rightarrow> jsstring \<Rightarrow> bool" where
  "isDestructiveAction rt toolName argsStr pageContext =
     (if tool_pattern_loop DESTRUCTIVE_TOOL_PATTERNS toolName argsStr then True
      else if toolName \<in> set (map str [''click'', ''type'', ''press_key'', ''select_option''])
      then keyword_loop DESTRUCTIVE_KEYWORDS toolName (toLowerCase rt argsStr)
             (toLowerCase rt pageContext)
      else False)"

definition meta_tools :: "jsstring list" where
  "meta_tools = map str [''read_page'', ''scroll'', ''wait'', ''ask_user'', ''done'', ''hover'',
                         ''go_back'', ''navigate'']"

definition confirm_question :: "jsstring \<Rightarrow> jsstring \<Rightarrow> jsstring \<Rightarrow> jsstring" where
  "confirm_question name argsStr pageContext =
     [9888, 65039] @ str ''  This action may be destructive (payment, deletion, submission).'' @
     [newline] @ str ''   Action: '' @ name @ str ''('' @ argsStr @ str '')'' @
     [newline] @ str ''   Page: '' @ pageContext @
     [newline] @ str ''   Allow this action? (y/n)''"

text \<open>
  \<^verbatim>\<open>checkAction\<close>. The user-confirm callback is the call \<open>ConfirmCallback\<close> of the
  environment; its rejection is not caught here. Logging is left out.
\<close>

definition checkAction :: "driver \<Rightarrow> js_runtime \<Rightarrow> ToolCall \<Rightarrow> jsstring \<Rightarrow> bool io" where
  "checkAction d rt toolCall pageContext =
     (let name = fn_name toolCall; argsStr = fn_arguments toolCall in
      if name \<in> set meta_tools then io_return True
      else if isDestructiveAction rt name argsStr pageContext then
        io_bind (call_string d (ConfirmCallback (confirm_question name argsStr pageContext)))
          (\<lambda>answer.
             let allowed = startsWith (toLowerCase rt answer) (str ''y'')
             in io_return allowed)
      else io_return True)"

section \<open>The context manager (\<^verbatim>\<open>ContextManager\<close>)\<close>

text \<open>
  \<^verbatim>\<open>Message\<close> is the union of the four message shapes; \<open>Tool\<close> carries \<^verbatim>\<open>tool_call_id\<close> and
  \<^verbatim>\<open>content\<close>. The content of an assistant message may be \<^verbatim>\<open>null\<close> and its \<^verbatim>\<open>tool_calls\<close>
  may be absent.
\<close>

datatype message =
    System jsstring
  | User jsstring
  | Assistant "jsstring option" "ToolCall list option"
  | Tool jsstring jsstring

record ContextManager =
  messages :: "message list"
  task :: jsstring
  actionHistory :: "jsstring list"
  maxHistoryMessages :: int
  tokenBudget :: int

definition new_ContextManager :: "int \<Rightarrow> int \<Rightarrow> ContextManager" where
  "new_ContextManager maxHistory budget =
     \<lparr>messages = [], task = [], actionHistory = [], maxHistoryMessages = maxHistory,
      tokenBudget = budget\<rparr>"

definition setTask :: "ContextManager \<Rightarrow> jsstring \<Rightarrow> ContextManager" where
  "setTask c t = c\<lparr>task := t, messages := [], actionHistory := []\<rparr>"

definition clear :: "ContextManager \<Rightarrow> ContextManager" where
  "clear c = c\<lparr>messages := [], actionHistory := [], task := []\<rparr>"

fun is_tool :: "message \<Rightarrow> bool" where
  "is_tool (Tool i c) = True"
| "is_tool m = False"

fun is_user :: "message \<Rightarrow> bool" where
  "is_user (User c) = True"
| "is_user m = False"

text \<open>\<^verbatim>\<open>xs.join(sep)\<close> and \<^verbatim>\<open>xs.slice(start)\<close>.\<close>

fun join :: "jsstring \<Rightarrow> jsstring list \<Rightarrow> jsstring" where
  "join sep [] = []"
| "join sep [x] = x"
| "join sep (x # xs) = x @ sep @ join sep xs"

definition slice_from :: "'a list \<Rightarrow> int \<Rightarrow> 'a list" where
  "slice_from xs start =
     (if start < 0 then drop (nat (int (length xs) + start)) xs else drop (nat start) xs)"

definition summarizeActions :: "jsstring list \<Rightarrow> jsstring" where
  "summarizeActions actionDescriptions =
     (if actionDescriptions = [] then []
      else str ''Previous actions taken:'' @ [newline] @
           join [newline]
             (map (\<lambda>(i, a). num_to_string (int i + 1) @ str ''. '' @ a)
                  (enumerate 0 actionDescriptions)))"

text \<open>
  \<^verbatim>\<open>findSafeWindowStart\<close>. Reading \<^verbatim>\<open>this.messages[start].role\<close> beyond the end of the array
  is a \<^verbatim>\<open>TypeError\<close>.
\<close>

function findSafeWindowStart :: "message list \<Rightarrow> int \<Rightarrow> exn + int" where
  "findSafeWindowStart msgs start =
     (if 0 < start then
        (if nat start < length msgs then
           (if is_tool (msgs ! nat start) then findSafeWindowStart msgs (start - 1)
            else Inr start)
         else Inl (Error (str ''Cannot read properties of undefined (reading 'role')'')))
      else Inr start)"
  by pat_completeness auto
termination
  by (relation "measure (\<lambda>(msgs, start). nat start)") auto

declare findSafeWindowStart.simps [simp del]

definition getRecentMessages :: "ContextManager \<Rightarrow> exn + message list" where
  "getRecentMessages c =
     (if int (length (messages c)) \<le> maxHistoryMessages c then Inr (messages c)
      else
        (let targetStart = int (length (messages c)) - maxHistoryMessages c in
         case findSafeWindowStart (messages c) targetStart of
           Inl e \<Rightarrow> Inl e
         | Inr safeStart \<Rightarrow> Inr (slice_from (messages c) safeStart)))"

text \<open>
  \<^verbatim>\<open>getMessages\<close>. The text of the system prompt (\<^verbatim>\<open>buildSystemPrompt\<close>) is a parameter.
\<close>

definition getMessages :: "(jsstring \<Rightarrow> jsstring) \<Rightarrow> ContextManager \<Rightarrow> exn + message list" where
  "getMessages buildSystemPrompt c =
     (let systemMessage = System (buildSystemPrompt (task c));
          summary = (if actionHistory c \<noteq> [] then [User (summarizeActions (actionHistory c))]
                     else [])
      in case getRecentMessages c of
           Inl e \<Rightarrow> Inl e
         | Inr recentMessages \<Rightarrow> Inr ([systemMessage] @ summary @ recentMessages))"

text \<open>\<^verbatim>\<open>estimateTokens\<close>: \<^verbatim>\<open>Math.ceil(length / 4)\<close> for each content, and 10 more for each tool call.\<close>

definition ceil_div4 :: "jsstring \<Rightarrow> int" where
  "ceil_div4 s = (int (length s) + 3) div 4"

fun message_tokens :: "message \<Rightarrow> int" where
  "message_tokens (System content) = ceil_div4 content"
| "message_tokens (User content) = ceil_div4 content"
| "message_tokens (Tool i content) = ceil_div4 content"
| "message_tokens (Assistant content tool_calls) =
     (case content of None \<Rightarrow> 0 | Some text \<Rightarrow> ceil_div4 text) +
     (case tool_calls of
        None \<Rightarrow> 0
      | Some tcs \<Rightarrow> sum_list (map (\<lambda>tc. ceil_div4 (fn_arguments tc) + 10) tcs))"

definition estimateTokens :: "message list \<Rightarrow> int" where
  "estimateTokens msgs = sum_list (map message_tokens msgs)"

text \<open>
  The mutating methods return the manager after the call; those that can throw return the
  outcome as well.
\<close>

definition compressIfNeeded :: "ContextManager \<Rightarrow> (exn + unit) \<times> ContextManager" where
  "compressIfNeeded c =
     (let totalTokens = estimateTokens (messages c) in
      if tokenBudget c < totalTokens \<and> maxHistoryMessages c < int (length (messages c)) then
        (let targetStart = int (length (messages c)) - maxHistoryMessages c in
         case findSafeWindowStart (messages c) targetStart of
           Inl e \<Rightarrow> (Inl e, c)
         | Inr safeStart \<Rightarrow> (Inr (), c\<lparr>messages := slice_from (messages c) safeStart\<rparr>))
      else (Inr (), c))"

definition addObservation :: "ContextManager \<Rightarrow> jsstring \<Rightarrow> (exn + unit) \<times> ContextManager" where
  "addObservation c content = compressIfNeeded (c\<lparr>messages := messages c @ [User content]\<rparr>)"

definition addAssistantMessage ::
    "ContextManager \<Rightarrow> jsstring option \<Rightarrow> ToolCall list option \<Rightarrow> ContextManager" where
  "addAssistantMessage c content toolCalls =
     c\<lparr>messages := messages c @ [Assistant content toolCalls]\<rparr>"

text \<open>
  \<^verbatim>\<open>Object.entries\<close> of a parsed JSON value; the pairs of \<open>JObj\<close> are taken to be in the
  order in which JavaScript enumerates the properties.
\<close>

fun Object_entries :: "json \<Rightarrow> exn + (jsstring \<times> json) list" where
  "Object_entries JNull = Inl (Error (str ''Cannot convert undefined or null to object''))"
| "Object_entries (JObj kvs) = Inr kvs"
| "Object_entries (JArr xs) = Inr (map (\<lambda>(i, x). (num_to_string (int i), x)) (enumerate 0 xs))"
| "Object_entries (JStr s) =
     Inr (map (\<lambda>(i, x). (num_to_string (int i), JStr [x])) (enumerate 0 s))"
| "Object_entries (JBool b) = Inr []"
| "Object_entries (JNum n) = Inr []"

definition history_entry :: "js_runtime \<Rightarrow> ToolCall \<Rightarrow> jsstring \<Rightarrow> jsstring" where
  "history_entry rt toolCall result =
     (let summaryLen = (if 1000 < length result then 300 else 100);
          bare = fn_name toolCall @ [32, 8594, 32] @ take summaryLen result
      in case JSON_parse rt (fn_arguments toolCall) of
           Inl e \<Rightarrow> bare
         | Inr args \<Rightarrow>
             (case Object_entries args of
                Inl e \<Rightarrow> bare
              | Inr entries \<Rightarrow>
                  (let argStr = join (str '', '')
                                  (map (\<lambda>(k, v). k @ str ''='' @ JSON_stringify rt v) entries)
                   in fn_name toolCall @ str ''('' @ argStr @ str '')'' @ [32, 8594, 32] @
                      take summaryLen result)))"

definition addToolResult ::
    "js_runtime \<Rightarrow> ContextManager \<Rightarrow> ToolCall \<Rightarrow> jsstring \<Rightarrow> ContextManager" where
  "addToolResult rt c toolCall result =
     c\<lparr>messages := messages c @ [Tool (tc_id toolCall) result],
       actionHistory := actionHistory c @ [history_entry rt toolCall result]\<rparr>"

text \<open>\<^verbatim>\<open>removeLastObservation\<close>: the scan from the end, as a scan of the reversed list.\<close>

fun remove_first_user :: "message list \<Rightarrow> message list" where
  "remove_first_user [] = []"
| "remove_first_user (m # ms) = (if is_user m then ms else m # remove_first_user ms)"

definition removeLastObservation :: "ContextManager \<Rightarrow> ContextManager" where
  "removeLastObservation c = c\<lparr>messages := rev (remove_first_user (rev (messages c)))\<rparr>"

section \<open>The tool executor (\<^verbatim>\<open>ToolExecutor\<close>)\<close>

record ToolExecutionResult =
  result :: jsstring
  isDone :: bool
  doneSummary :: "jsstring option"
  needsUserInput :: bool
  userQuestion :: "jsstring option"

text \<open>
  The executor holds the page of its \<^verbatim>\<open>BrowserActions\<close> (set by \<^verbatim>\<open>updatePage\<close>) and the
  token budget of its extractor.
\<close>

record ToolExecutor =
  actions_page :: page_id
  extractor_tokenBudget :: int

definition updatePage :: "ToolExecutor \<Rightarrow> page_id \<Rightarrow> ToolExecutor" where
  "updatePage ex p = ex\<lparr>actions_page := p\<rparr>"

definition tool_names :: "jsstring list" where
  "tool_names = map str [''navigate'', ''click'', ''type'', ''scroll'', ''read_page'', ''go_back'',
                         ''select_option'', ''press_key'', ''hover'', ''wait'', ''ask_user'',
                         ''done'']"

definition plain_result :: "jsstring \<Rightarrow> ToolExecutionResult" where
  "plain_result r =
     \<lparr>result = r, isDone = False, doneSummary = None, needsUserInput = False,
      userQuestion = None\<rparr>"

text \<open>
  The arguments of a tool as its schema types them: \<^verbatim>\<open>args.url\<close> and the like are strings,
  \<^verbatim>\<open>args.ms\<close> is a number. \<open>string_arg\<close> and \<open>int_arg\<close> answer \<open>None\<close> when the parsed
  value has no such field of that type. JavaScript then goes on with \<^verbatim>\<open>undefined\<close> or a
  value of another type; the model does not follow it there, and the outcome \<open>None\<close> of
  \<open>dispatch\<close>, \<open>execute\<close> and the agent loop stands for such a call.
\<close>

definition string_arg :: "json \<Rightarrow> jsstring \<Rightarrow> jsstring option" where
  "string_arg args key =
     (case args of
        JObj kvs \<Rightarrow> (case map_of kvs key of Some (JStr s) \<Rightarrow> Some s | _ \<Rightarrow> None)
      | _ \<Rightarrow> None)"

definition int_arg :: "json \<Rightarrow> jsstring \<Rightarrow> int option" where
  "int_arg args key =
     (case args of
        JObj kvs \<Rightarrow> (case map_of kvs key of Some (JNum n) \<Rightarrow> Some n | _ \<Rightarrow> None)
      | _ \<Rightarrow> None)"

definition with_result :: "jsstring io \<Rightarrow> ToolExecutionResult option io" where
  "with_result m = io_bind m (\<lambda>r. io_return (Some (plain_result r)))"

definition getPageContextForSecurity :: "driver \<Rightarrow> page_id \<Rightarrow> jsstring io" where
  "getPageContextForSecurity d page =
     io_catch
       (io_bind (call_string d (PageOp page Title)) (\<lambda>title.
        io_bind (read_url d page) (\<lambda>url.
        io_return (title @ str '' ('' @ url @ str '')''))))
       (\<lambda>_. io_return (str ''unknown page''))"

text \<open>The \<^verbatim>\<open>switch (name)\<close> of \<^verbatim>\<open>execute\<close>. The calls of the logger are left out.\<close>

definition dispatch ::
    "driver \<Rightarrow> js_runtime \<Rightarrow> ToolExecutor \<Rightarrow> page_id \<Rightarrow> jsstring \<Rightarrow> json \<Rightarrow>
     ToolExecutionResult option io" where
  "dispatch d rt ex page name args =
     (if name = str ''navigate'' then
        (case string_arg args (str ''url'') of
           None \<Rightarrow> io_return None
         | Some url \<Rightarrow> with_result (navigate d (actions_page ex) url))
      else if name = str ''click'' then
        (case string_arg args (str ''selector'') of
           None \<Rightarrow> io_return None
         | Some selector \<Rightarrow> with_result (click d rt (actions_page ex) selector))
      else if name = str ''type'' then
        (case (string_arg args (str ''selector''), string_arg args (str ''text'')) of
           (Some selector, Some text) \<Rightarrow> with_result (type d rt (actions_page ex) selector text)
         | _ \<Rightarrow> io_return None)
      else if name = str ''scroll'' then
        (case string_arg args (str ''direction'') of
           None \<Rightarrow> io_return None
         | Some direction \<Rightarrow> with_result (scroll d (actions_page ex) direction))
      else if name = str ''read_page'' then
        with_result (extractPage d (extractor_tokenBudget ex) page)
      else if name = str ''go_back'' then
        with_result (goBack d (actions_page ex))
      else if name = str ''select_option'' then
        (case (string_arg args (str ''selector''), string_arg args (str ''value'')) of
           (Some selector, Some v) \<Rightarrow> with_result (selectOption d rt (actions_page ex) selector v)
         | _ \<Rightarrow> io_return None)
      else if name = str ''press_key'' then
        (case string_arg args (str ''key'') of
           None \<Rightarrow> io_return None
         | Some key \<Rightarrow> with_result (pressKey d (actions_page ex) key))
      else if name = str ''hover'' then
        (case string_arg args (str ''selector'') of
           None \<Rightarrow> io_return None
         | Some selector \<Rightarrow> with_result (hover d rt (actions_page ex) selector))
      else if name = str ''wait'' then
        (case int_arg args (str ''ms'') of
           None \<Rightarrow> io_return None
         | Some n \<Rightarrow> with_result (wait d (actions_page ex) n))
      else if name = str ''ask_user'' then
        (case string_arg args (str ''question'') of
           None \<Rightarrow> io_return None
         | Some question \<Rightarrow>
             io_bind (call_string d (AskUserCallback question)) (\<lambda>answer.
             io_return (Some \<lparr>result = str ''User answered: '' @ answer, isDone = False,
                              doneSummary = None, needsUserInput = True,
                              userQuestion = Some question\<rparr>)))
      else if name = str ''done'' then
        (case string_arg args (str ''summary'') of
           None \<Rightarrow> io_return None
         | Some summary \<Rightarrow>
             io_return (Some \<lparr>result = summary, isDone = True, doneSummary = Some summary,
                              needsUserInput = False, userQuestion = None\<rparr>))
      else
        io_return (Some (plain_result
          (str ''Unknown tool: '' @ quoted name @ str ''. Available tools: '' @
           join (str '', '') tool_names))))"

definition invalid_json_result :: "jsstring \<Rightarrow> jsstring \<Rightarrow> jsstring" where
  "invalid_json_result name argsStr =
     str ''Error: Invalid JSON arguments for tool '' @ quoted name @ str '': '' @ argsStr"

definition execute ::
    "driver \<Rightarrow> js_runtime \<Rightarrow> ToolExecutor \<Rightarrow> ToolCall \<Rightarrow> page_id \<Rightarrow>
     ToolExecutionResult option io" where
  "execute d rt ex toolCall page =
     (let name = fn_name toolCall; argsStr = fn_arguments toolCall in
      case JSON_parse rt argsStr of
        Inl e \<Rightarrow> io_return (Some (plain_result (invalid_json_result name argsStr)))
      | Inr args \<Rightarrow>
          io_bind (getPageContextForSecurity d page) (\<lambda>pageContext.
          io_bind (checkAction d rt toolCall pageContext) (\<lambda>allowed.
          if \<not> allowed then
            io_return (Some (plain_result (str
              ''Action was blocked by user (security check). Try a different approach or ask the user.'')))
          else
            io_catch (dispatch d rt ex page name args)
              (\<lambda>error. io_return (Some (plain_result
                 (str ''Tool '' @ quoted name @ str '' execution error: '' @ errText error)))))))"

section \<open>The agent loop (\<^verbatim>\<open>BrowserAgent\<close>)\<close>

subsection \<open>The browser manager\<close>

text \<open>
  \<open>launched\<close> says that the manager's \<^verbatim>\<open>context\<close> is not \<^verbatim>\<open>null\<close>.
\<close>

definition getActivePage :: "driver \<Rightarrow> bool \<Rightarrow> page_id io" where
  "getActivePage d launched =
     (\<lambda>w. if \<not> launched then (Inl (Error (str ''Browser not launched'')), w)
          else (case open_pages d w of
                  [] \<Rightarrow> (Inl (Error (str ''No pages open in browser'')), w)
                | p # ps \<Rightarrow> (Inr (last (p # ps)), w)))"

fun close_loop :: "driver \<Rightarrow> page_id list \<Rightarrow> page_id \<Rightarrow> unit io" where
  "close_loop d [] activePage = io_return ()"
| "close_loop d (p # ps) activePage =
     (if p \<noteq> activePage then
        io_bind (io_catch (call_unit d (PageOp p ClosePage)) (\<lambda>_. io_return ()))
                (\<lambda>_. close_loop d ps activePage)
      else close_loop d ps activePage)"

definition closeExtraTabs :: "driver \<Rightarrow> bool \<Rightarrow> unit io" where
  "closeExtraTabs d launched =
     (\<lambda>w. if \<not> launched then (Inr (), w)
          else (let pages = open_pages d w in
                if length pages \<le> 1 then (Inr (), w)
                else close_loop d pages (last pages) w))"

subsection \<open>Loop detection\<close>

text \<open>
  \<^verbatim>\<open>run\<close> keeps \<^verbatim>\<open>recentActions: Array<{ action: string; url: string }>\<close>.
\<close>

record recent_action =
  action :: jsstring
  url :: jsstring

text \<open>
  The counting loop of \<^verbatim>\<open>isStuck\<close>:
  \<^verbatim>\<open>for (let i = 0; i < allActions.length; i++) {
    if (allActions[i].url === currentUrl) {
      if (i === 0 || allActions[i - 1].url !== currentUrl) visits++; } }\<close>
  Both reads are in range: \<open>i < length allActions\<close>, and \<open>i - 1\<close> is read only when \<open>i \<noteq> 0\<close>.
\<close>

function visits_loop :: "recent_action list \<Rightarrow> jsstring \<Rightarrow> nat \<Rightarrow> nat \<Rightarrow> nat" where
  "visits_loop allActions currentUrl i visits =
     (if i < length allActions then
        visits_loop allActions currentUrl (i + 1)
          (if url (allActions ! i) = currentUrl then
             (if i = 0 \<or> url (allActions ! (i - 1)) \<noteq> currentUrl then visits + 1 else visits)
           else visits)
      else visits)"
  by pat_completeness auto
termination
  by (relation "measure (\<lambda>(allActions, currentUrl, i, visits). length allActions - i)") auto

declare visits_loop.simps [simp del]

definition isStuck :: "recent_action list \<Rightarrow> jsstring \<Rightarrow> jsstring \<Rightarrow> bool" where
  "isStuck recentActions currentAction currentUrl =
     (if 2 \<le> length recentActions \<and>
         (let last = recentActions ! (length recentActions - 1);
              secondLast = recentActions ! (length recentActions - 2)
          in action last = currentAction \<and> url last = currentUrl \<and>
             action secondLast = currentAction \<and> url secondLast = currentUrl)
      then True
      else
        (let allActions = recentActions @ [\<lparr>action = currentAction, url = currentUrl\<rparr>];
             visits = visits_loop allActions currentUrl 0 0
         in if 3 \<le> visits then True else False))"

subsection \<open>Processing the tool calls of a response\<close>

text \<open>
  The state of a run that the loop over \<^verbatim>\<open>response.toolCalls\<close> reads and writes: the fields
  \<^verbatim>\<open>this.context\<close>, \<^verbatim>\<open>this.page\<close>, \<^verbatim>\<open>this.toolExecutor\<close>, \<^verbatim>\<open>this.isDone\<close>, \<^verbatim>\<open>this.summary\<close>
  and the local \<^verbatim>\<open>recentActions\<close>.
\<close>

record run_state =
  this_context :: ContextManager
  this_page :: page_id
  this_toolExecutor :: ToolExecutor
  this_isDone :: bool
  this_summary :: jsstring
  recentActions :: "recent_action list"

datatype loop_signal = Continue | Break

definition stuck_message :: "ToolCall \<Rightarrow> jsstring" where
  "stuck_message toolCall =
     str ''You are repeating the action '' @ quoted (fn_name toolCall) @
     str '' with the same arguments on the same page, which seems ineffective. STOP. Try a different approach (search, tab navigation, or ask_user).''"

text \<open>
  The page reference is refreshed inside a \<^verbatim>\<open>try\<close> with an empty \<^verbatim>\<open>catch\<close>: when it fails
  the state keeps the page it had.
\<close>

definition refresh_page :: "driver \<Rightarrow> bool \<Rightarrow> run_state \<Rightarrow> run_state io" where
  "refresh_page d launched st =
     io_catch
       (io_bind (closeExtraTabs d launched) (\<lambda>_.
        io_bind (getActivePage d launched) (\<lambda>p.
        io_return (st\<lparr>this_page := p, this_toolExecutor := updatePage (this_toolExecutor st) p\<rparr>))))
       (\<lambda>_. io_return st)"

text \<open>
  The body of \<^verbatim>\<open>for (const toolCall of response.toolCalls)\<close>, with the way it leaves the
  iteration: \<^verbatim>\<open>continue\<close> (also the normal end of the body) or \<^verbatim>\<open>break\<close>.
\<close>

definition tool_call_body ::
    "driver \<Rightarrow> js_runtime \<Rightarrow> bool \<Rightarrow> ToolCall \<Rightarrow> run_state \<Rightarrow> (loop_signal \<times> run_state) option io"
  where
  "tool_call_body d rt launched toolCall st =
     (let toolDesc = fn_name toolCall @ str ''('' @ fn_arguments toolCall @ str '')'' in
      io_bind (read_url d (this_page st)) (\<lambda>currentUrl.
      if isStuck (recentActions st) toolDesc currentUrl then
        io_return (Some (Continue,
          st\<lparr>this_context := addToolResult rt (this_context st) toolCall (stuck_message toolCall)\<rparr>))
      else
        (let pushed = recentActions st @ [\<lparr>action = toolDesc, url = currentUrl\<rparr>];
             st1 = st\<lparr>recentActions := (if 10 < length pushed then tl pushed else pushed)\<rparr>
         in io_bind (execute d rt (this_toolExecutor st1) toolCall (this_page st1)) (\<lambda>r.
            case r of
              None \<Rightarrow> io_return None
            | Some res \<Rightarrow>
                io_bind (refresh_page d launched st1) (\<lambda>st2.
                let st3 = st2\<lparr>this_context :=
                                 addToolResult rt (this_context st2) toolCall (result res)\<rparr>
                in if isDone res then
                     io_return (Some (Break,
                       st3\<lparr>this_isDone := True,
                           this_summary := (case doneSummary res of
                                              None \<Rightarrow> str ''Task completed''
                                            | Some text \<Rightarrow> if text = [] then str ''Task completed''
                                                           else text)\<rparr>))
                   else io_return (Some (Continue, st3)))))))"

fun tool_calls_loop ::
    "driver \<Rightarrow> js_runtime \<Rightarrow> bool \<Rightarrow> ToolCall list \<Rightarrow> run_state \<Rightarrow> run_state option io" where
  "tool_calls_loop d rt launched [] st = io_return (Some st)"
| "tool_calls_loop d rt launched (toolCall # rest) st =
     io_bind (tool_call_body d rt launched toolCall st) (\<lambda>r.
       case r of
         None \<Rightarrow> io_return None
       | Some (Break, st') \<Rightarrow> io_return (Some st')
       | Some (Continue, st') \<Rightarrow> tool_calls_loop d rt launched rest st')"

section \<open>Notions used in the statements\<close>

text \<open>
  A visit, in the words of the specification: an index of the list whose entry has the url
  and which is index 0 or has a predecessor with another url.
\<close>

definition is_visit :: "recent_action list \<Rightarrow> jsstring \<Rightarrow> nat \<Rightarrow> bool" where
  "is_visit xs u i \<longleftrightarrow> i < length xs \<and> url (xs ! i) = u \<and> (i = 0 \<or> url (xs ! (i - 1)) \<noteq> u)"

text \<open>An action returns a string: whatever the trace so far, it ends without an exception.\<close>

definition returns_string :: "jsstring io \<Rightarrow> bool" where
  "returns_string m \<longleftrightarrow> (\<forall>w. \<exists>s w'. m w = (Inr s, w'))"

text \<open>
  A log of messages is well paired when every tool result answers a call of the assistant
  message before it, with nothing but tool results in between. \<open>answerable\<close> gives the calls
  that a tool result appended to the log may answer.
\<close>

fun answerable :: "ToolCall list \<Rightarrow> message list \<Rightarrow> ToolCall list" where
  "answerable cur [] = cur"
| "answerable cur (Tool i c # ms) = answerable cur ms"
| "answerable cur (Assistant c tcs # ms) = answerable (case tcs of None \<Rightarrow> [] | Some l \<Rightarrow> l) ms"
| "answerable cur (User c # ms) = answerable [] ms"
| "answerable cur (System c # ms) = answerable [] ms"

fun paired_from :: "ToolCall list \<Rightarrow> message list \<Rightarrow> bool" where
  "paired_from cur [] = True"
| "paired_from cur (Tool i c # ms) = (i \<in> tc_id ` set cur \<and> paired_from cur ms)"
| "paired_from cur (Assistant c tcs # ms) = paired_from (case tcs of None \<Rightarrow> [] | Some l \<Rightarrow> l) ms"
| "paired_from cur (User c # ms) = paired_from [] ms"
| "paired_from cur (System c # ms) = paired_from [] ms"

text \<open>
  The logs that the operations of the context manager produce when every tool result is
  added for a call of the latest assistant message and before any other message. The second
  component holds the calls of that assistant message.
\<close>

inductive produced :: "js_runtime \<Rightarrow> ContextManager \<times> ToolCall list \<Rightarrow> bool" for rt where
  started: "produced rt (setTask (new_ContextManager maxHistory budget) t, [])"
| observed: "produced rt (c, pending) \<Longrightarrow> produced rt (snd (addObservation c content), [])"
| assistant: "produced rt (c, pending) \<Longrightarrow>
     produced rt (addAssistantMessage c content toolCalls,
                  case toolCalls of None \<Rightarrow> [] | Some tcs \<Rightarrow> tcs)"
| answered: "produced rt (c, pending) \<Longrightarrow> toolCall \<in> set pending \<Longrightarrow>
     produced rt (addToolResult rt c toolCall res, pending)"
| rewound: "produced rt (c, pending) \<Longrightarrow> produced rt (removeLastObservation c, pending)"

definition well_paired :: "ContextManager \<times> ToolCall list \<Rightarrow> bool" where
  "well_paired s \<longleftrightarrow>
     paired_from [] (messages (fst s)) \<and>
     tc_id ` set (snd s) \<subseteq> tc_id ` set (answerable [] (messages (fst s)))"

text \<open>
  A word boundary (\<^verbatim>\<open>\b\<close>) at a position, and the word ROOT in either case standing between
  two word boundaries at a position.
\<close>

definition boundary :: "jsstring \<Rightarrow> nat \<Rightarrow> bool" where
  "boundary s i \<longleftrightarrow> ((0 < i \<and> word_at s (i - 1)) \<noteq> word_at s i)"

definition root_at :: "jsstring \<Rightarrow> nat \<Rightarrow> bool" where
  "root_at s i \<longleftrightarrow>
     boundary s i \<and> i + 3 < length s \<and> s ! i \<in> {82, 114} \<and> s ! (i + 1) \<in> {79, 111} \<and>
     s ! (i + 2) \<in> {79, 111} \<and> s ! (i + 3) \<in> {84, 116} \<and> boundary s (i + 4)"

text \<open>
  The second pattern as the specification writes it, \<^verbatim>\<open>^[A-Z]+\s*>\s*[A-Z]+.*\d\<close>, to compare
  with the two patterns of the source.
\<close>

definition spec_tree_path_pattern :: rx where
  "spec_tree_path_pattern =
     seqs [Bol, Plus (Chr is_upper), Star (Chr is_space), lit 62, Star (Chr is_space),
           Plus (Chr is_upper), Star (Chr is_dot), Chr is_digit]"

section \<open>Sample environments\<close>

text \<open>
  A runtime whose \<open>toLowerCase\<close> is the one of JavaScript on ASCII strings and whose
  \<open>JSON_parse\<close> agrees with \<^verbatim>\<open>JSON.parse\<close> on the strings used below: the empty object, and
  strings that are not JSON.
\<close>

definition ascii_lower :: "jsstring \<Rightarrow> jsstring" where
  "ascii_lower s = map (\<lambda>c. if 65 \<le> c \<and> c \<le> 90 then c + 32 else c) s"

definition sample_runtime :: js_runtime where
  "sample_runtime =
     \<lparr>JSON_parse = (\<lambda>s. if s = str ''{}'' then Inr (JObj [])
                        else Inl (Error (str ''Unexpected token in JSON''))),
      JSON_stringify = (\<lambda>v. str ''null''),
      toLowerCase = ascii_lower\<rparr>"

text \<open>A browser whose page was closed: every call is rejected.\<close>

definition closed_page_driver :: driver where
  "closed_page_driver =
     \<lparr>completes = (\<lambda>w c. Some (Error (str ''Target page, context or browser has been closed''))),
      answers_string = (\<lambda>w c. Inl (Error (str ''Target page, context or browser has been closed''))),
      answers_number = (\<lambda>w c. Inl (Error (str ''Target page, context or browser has been closed''))),
      page_url = (\<lambda>w p. str ''about:blank''),
      open_pages = (\<lambda>w. []),
      settles_within = (\<lambda>w c n. True)\<rparr>"

text \<open>A browser with one page that accepts every call and stays at one address.\<close>

definition still_page_driver :: driver where
  "still_page_driver =
     \<lparr>completes = (\<lambda>w c. None),
      answers_string = (\<lambda>w c. Inr (str ''Example Domain'')),
      answers_number = (\<lambda>w c. Inr 0),
      page_url = (\<lambda>w p. str ''https://example.com/''),
      open_pages = (\<lambda>w. [0]),
      settles_within = (\<lambda>w c n. True)\<rparr>"

definition sample_history :: "recent_action list" where
  "sample_history =
     [\<lparr>action = str ''click(a)'', url = str ''/list''\<rparr>,
      \<lparr>action = str ''click(b)'', url = str ''/item''\<rparr>,
      \<lparr>action = str ''go_back()'', url = str ''/list''\<rparr>,
      \<lparr>action = str ''click(c)'', url = str ''/item''\<rparr>]"

definition sample_scroll_call :: ToolCall where
  "sample_scroll_call = \<lparr>tc_id = str ''call_1'', fn_name = str ''scroll'', fn_arguments = str ''{}''\<rparr>"

definition sample_bad_call :: ToolCall where
  "sample_bad_call =
     \<lparr>tc_id = str ''call_2'', fn_name = str ''click'', fn_arguments = str ''{selector: Submit''\<rparr>"

definition sample_executor :: ToolExecutor where
  "sample_executor = \<lparr>actions_page = 0, extractor_tokenBudget = 6000\<rparr>"

text \<open>A context with a window of one message, after two observations and one answered call.\<close>

definition sample_context :: ContextManager where
  "sample_context =
     addToolResult sample_runtime
       (addAssistantMessage
          (snd (addObservation
                  (snd (addObservation (setTask (new_ContextManager 1 8000) (str ''task''))
                          (str ''page 1'')))
                  (str ''page 2'')))
          None (Some [sample_scroll_call]))
       sample_scroll_call (str ''Scrolled'')"

text \<open>A run that has scrolled twice on the page it is on.\<close>

definition sample_stuck_state :: run_state where
  "sample_stuck_state =
     \<lparr>this_context = sample_context, this_page = 0, this_toolExecutor = sample_executor,
      this_isDone = False, this_summary = [],
      recentActions = [\<lparr>action = str ''scroll({})'', url = str ''https://example.com/''\<rparr>,
                       \<lparr>action = str ''scroll({})'', url = str ''https://example.com/''\<rparr>]\<rparr>"

section \<open>Properties of the page extractor\<close>

lemma lastIndexOf_bounds: "- 1 \<le> lastIndexOf s c \<and> lastIndexOf s c < int (length s)"
  by (induction s) (auto simp: Let_def)

lemma lastIndexOf_hit:
  "0 \<le> lastIndexOf s c \<Longrightarrow>
   s ! nat (lastIndexOf s c) = c \<and>
   (\<forall>k. nat (lastIndexOf s c) < k \<and> k < length s \<longrightarrow> s ! k \<noteq> c)"
proof (induction s)
  case Nil
  then show ?case by simp
next
  case (Cons x xs)
  show ?case
  proof (cases "0 \<le> lastIndexOf xs c")
    case True
    with Cons.IH have ih: "xs ! nat (lastIndexOf xs c) = c"
      "\<forall>k. nat (lastIndexOf xs c) < k \<and> k < length xs \<longrightarrow> xs ! k \<noteq> c" by auto
    from True have eq: "lastIndexOf (x # xs) c = lastIndexOf xs c + 1" by (simp add: Let_def)
    from True have n: "nat (lastIndexOf xs c + 1) = Suc (nat (lastIndexOf xs c))" by simp
    show ?thesis
      unfolding eq n using ih by (auto simp: nth_Cons split: nat.splits)
  next
    case False
    with Cons.prems have x: "x = c" and eq: "lastIndexOf (x # xs) c = 0"
      by (auto simp: Let_def split: if_splits)
    from False lastIndexOf_bounds [of xs c] have m: "lastIndexOf xs c = - 1" by simp
    have none: "c \<notin> set xs"
      using m
    proof (induction xs)
      case Nil
      then show ?case by simp
    next
      case (Cons y ys)
      then show ?case using lastIndexOf_bounds [of ys c]
        by (auto simp: Let_def split: if_splits)
    qed
    show ?thesis unfolding eq using x none by (auto simp: nth_Cons split: nat.splits)
  qed
qed

lemma lastIndexOf_miss: "lastIndexOf s c \<le> 0 \<Longrightarrow> \<forall>k. 0 < k \<and> k < length s \<longrightarrow> s ! k \<noteq> c"
proof (induction s)
  case Nil
  then show ?case by simp
next
  case (Cons x xs)
  from Cons.prems lastIndexOf_bounds [of xs c] have m: "lastIndexOf xs c = - 1"
    by (auto simp: Let_def split: if_splits)
  have none: "c \<notin> set xs"
    using m
  proof (induction xs)
    case Nil
    then show ?case by simp
  next
    case (Cons y ys)
    then show ?case using lastIndexOf_bounds [of ys c]
      by (auto simp: Let_def split: if_splits)
  qed
  then show ?case by (auto simp: nth_Cons split: nat.splits)
qed

lemma length_truncation_notice: "length truncation_notice = 43"
  by (simp add: truncation_notice_def str_def)

text \<open>
  C1, as the code has it. For a budget that is not negative: content of at most
  \<open>budget * 4\<close> code units is returned as it is. Longer content is cut and followed by the
  notice of 43 code units. When a newline stands at an index from 1 to below \<open>budget * 4\<close>,
  what is kept is the content before the last such newline; when none does, what is kept is
  the whole first \<open>budget * 4\<close> code units. A newline at index 0 or at index \<open>budget * 4\<close>
  itself plays no part. In all cases the result has at most \<open>budget * 4 + 43\<close> code units.
\<close>

theorem truncate_budget:
  assumes "0 \<le> budget"
  shows "(int (length content) \<le> budget * 4 \<longrightarrow>
            truncateToTokenBudget budget content = content) \<and>
         (budget * 4 < int (length content) \<longrightarrow>
            (\<forall>j. 0 < j \<and> int j < budget * 4 \<and> content ! j = newline \<and>
                 (\<forall>k. j < k \<and> int k < budget * 4 \<longrightarrow> content ! k \<noteq> newline) \<longrightarrow>
                 truncateToTokenBudget budget content = take j content @ truncation_notice) \<and>
            ((\<forall>i. 0 < i \<and> int i < budget * 4 \<longrightarrow> content ! i \<noteq> newline) \<longrightarrow>
               truncateToTokenBudget budget content =
                 take (nat (budget * 4)) content @ truncation_notice)) \<and>
         int (length (truncateToTokenBudget budget content)) \<le> budget * 4 + 43"
proof (cases "int (length content) \<le> budget * 4")
  case True
  then show ?thesis by (simp add: truncateToTokenBudget_def)
next
  case False
  define n where "n = nat (budget * 4)"
  from assms False have n: "int n = budget * 4" "n < length content"
    by (simp_all add: n_def)
  have lt: "\<And>k. int k < budget * 4 \<longleftrightarrow> k < n" using n(1) by linarith
  define truncated where "truncated = take n content"
  have tr: "slice_to content (budget * 4) = truncated"
    using assms by (simp add: slice_to_def truncated_def n_def)
  have len_tr: "length truncated = n" using n by (simp add: truncated_def)
  have nth_tr: "\<And>k. k < n \<Longrightarrow> truncated ! k = content ! k" by (simp add: truncated_def)
  define ln where "ln = lastIndexOf truncated newline"
  show ?thesis
  proof (cases "0 < ln")
    case True
    define j0 where "j0 = nat ln"
    from True lastIndexOf_bounds [of truncated newline] have j0: "0 < j0" "j0 < n" "ln = int j0"
      by (simp_all add: j0_def ln_def len_tr)
    from True lastIndexOf_hit [of truncated newline]
    have "truncated ! j0 = newline"
      and "\<And>k. j0 < k \<Longrightarrow> k < n \<Longrightarrow> truncated ! k \<noteq> newline"
      by (simp_all add: ln_def [symmetric] j0_def len_tr)
    with nth_tr j0 have hit: "content ! j0 = newline"
      and last: "\<And>k. j0 < k \<Longrightarrow> k < n \<Longrightarrow> content ! k \<noteq> newline"
      by simp_all
    have "slice_to truncated ln = take j0 content"
      using j0 by (simp add: slice_to_def truncated_def min_def)
    moreover have "truncateToTokenBudget budget content = slice_to truncated ln @ truncation_notice"
      using False True by (simp add: truncateToTokenBudget_def Let_def tr ln_def [symmetric])
    ultimately have res: "truncateToTokenBudget budget content = take j0 content @ truncation_notice"
      by simp
    have first: "\<forall>j. 0 < j \<and> int j < budget * 4 \<and> content ! j = newline \<and>
                 (\<forall>k. j < k \<and> int k < budget * 4 \<longrightarrow> content ! k \<noteq> newline) \<longrightarrow>
                 truncateToTokenBudget budget content = take j content @ truncation_notice"
    proof (intro allI impI)
      fix j
      assume a: "0 < j \<and> int j < budget * 4 \<and> content ! j = newline \<and>
                 (\<forall>k. j < k \<and> int k < budget * 4 \<longrightarrow> content ! k \<noteq> newline)"
      then have jn: "j < n" and cj: "content ! j = newline"
        and after: "\<And>k. j < k \<Longrightarrow> k < n \<Longrightarrow> content ! k \<noteq> newline"
        unfolding lt by blast+
      have "\<not> j0 < j" using last [of j] jn cj by blast
      moreover have "\<not> j < j0" using after [of j0] j0(2) hit by blast
      ultimately have "j = j0" by simp
      with res show "truncateToTokenBudget budget content = take j content @ truncation_notice"
        by simp
    qed
    have second: "\<not> (\<forall>i. 0 < i \<and> int i < budget * 4 \<longrightarrow> content ! i \<noteq> newline)"
      unfolding lt using hit j0 by blast
    have "int (length (truncateToTokenBudget budget content)) \<le> budget * 4 + 43"
      unfolding res using j0 n by (simp add: length_truncation_notice)
    with first second False show ?thesis by blast
  next
    case nohit: False
    have "truncateToTokenBudget budget content = truncated @ truncation_notice"
      using False nohit
      by (simp add: truncateToTokenBudget_def Let_def tr ln_def [symmetric])
    then have res: "truncateToTokenBudget budget content = take n content @ truncation_notice"
      by (simp add: truncated_def)
    from nohit lastIndexOf_miss [of truncated newline]
    have miss: "\<And>k. 0 < k \<Longrightarrow> k < n \<Longrightarrow> content ! k \<noteq> newline"
      using nth_tr by (simp add: ln_def [symmetric] len_tr)
    have first: "\<forall>j. 0 < j \<and> int j < budget * 4 \<and> content ! j = newline \<and>
                 (\<forall>k. j < k \<and> int k < budget * 4 \<longrightarrow> content ! k \<noteq> newline) \<longrightarrow>
                 truncateToTokenBudget budget content = take j content @ truncation_notice"
      unfolding lt using miss by blast
    have second: "truncateToTokenBudget budget content =
        take (nat (budget * 4)) content @ truncation_notice"
      using res by (simp add: n_def)
    have "int (length (truncateToTokenBudget budget content)) \<le> budget * 4 + 43"
      unfolding res using n by (simp add: length_truncation_notice)
    with first second False show ?thesis by blast
  qed
qed

text \<open>
  A witness for C1: a budget of 2 and thirteen code units with newlines at indices 3 and 8.
  The newline at index 8 is outside the first eight code units, so the cut is at index 3.
\<close>

theorem truncate_budget_witness:
  "(0::int) \<le> 2 \<and>
   truncateToTokenBudget 2 (str ''abc'' @ [newline] @ str ''efgh'' @ [newline] @ str ''xyz'') =
     str ''abc'' @ truncation_notice"
proof -
  let ?content = "str ''abc'' @ [newline] @ str ''efgh'' @ [newline] @ str ''xyz''"
  have h: "(0::int) \<le> 2" by simp
  have c: "?content = [97, 98, 99, 10, 101, 102, 103, 104, 10, 120, 121, 122]"
    by (simp add: str_def newline_def)
  have long: "(2::int) * 4 < int (length ?content)" unfolding c by simp
  have after: "\<forall>k. 3 < k \<and> int k < 2 * 4 \<longrightarrow> ?content ! k \<noteq> newline"
  proof (intro allI impI)
    fix k :: nat
    assume "3 < k \<and> int k < 2 * 4"
    then have "k = 4 \<or> k = 5 \<or> k = 6 \<or> k = 7" by presburger
    then show "?content ! k \<noteq> newline" unfolding c by (auto simp: newline_def)
  qed
  have at: "?content ! 3 = newline" unfolding c by (simp add: newline_def)
  from truncate_budget [OF h, of ?content] long
  have "\<forall>j. 0 < j \<and> int j < 2 * 4 \<and> ?content ! j = newline \<and>
            (\<forall>k. j < k \<and> int k < 2 * 4 \<longrightarrow> ?content ! k \<noteq> newline) \<longrightarrow>
            truncateToTokenBudget 2 ?content = take j ?content @ truncation_notice"
    by blast
  then have "0 < (3::nat) \<and> int 3 < 2 * 4 \<and> ?content ! 3 = newline \<and>
            (\<forall>k. 3 < k \<and> int k < 2 * 4 \<longrightarrow> ?content ! k \<noteq> newline) \<longrightarrow>
            truncateToTokenBudget 2 ?content = take 3 ?content @ truncation_notice"
    by (rule spec)
  with at after have "truncateToTokenBudget 2 ?content = take 3 ?content @ truncation_notice"
    by simp
  moreover have "take 3 ?content = str ''abc''" by (simp add: str_def)
  ultimately show ?thesis using h by simp
qed

text \<open>
  C1 as the specification states it fails: with a budget of 1, five code units become the
  first four and the notice, 47 code units where the claim allows 4.
\<close>

theorem truncate_budget_counterexample:
  "\<not> int (length (truncateToTokenBudget 1 (str ''abcde''))) \<le> 1 * 4"
  by (simp add: truncateToTokenBudget_def str_def slice_to_def Let_def newline_def
      truncation_notice_def)

section \<open>Properties of the action library\<close>

lemma returns_return: "returns_string (io_return s)"
  by (simp add: returns_string_def io_return_def)

lemma returns_catch: "(\<And>e. returns_string (h e)) \<Longrightarrow> returns_string (io_catch m h)"
  unfolding returns_string_def io_catch_def
  by (auto split: prod.splits sum.splits)

lemma returns_if: "returns_string a \<Longrightarrow> returns_string b \<Longrightarrow> returns_string (if c then a else b)"
  by simp

lemma returns_read_url: "(\<And>u. returns_string (f u)) \<Longrightarrow> returns_string (io_bind (read_url d p) f)"
  unfolding returns_string_def io_bind_def read_url_def by simp

lemma navigate_returns: "returns_string (navigate d page u)"
  unfolding navigate_def by (intro returns_catch returns_return)

lemma click_after_timeout_returns: "returns_string (click_after_timeout d rt page selector error)"
  unfolding click_after_timeout_def by (intro returns_read_url returns_catch returns_return)

lemma click_returns: "returns_string (click d rt page selector)"
  unfolding click_def
  by (intro returns_catch returns_if returns_return click_after_timeout_returns)

lemma type_returns: "returns_string (type d rt page selector text)"
  unfolding type_def by (intro returns_catch returns_if returns_return)

lemma scroll_returns: "returns_string (scroll d page direction)"
  unfolding scroll_def by (intro returns_catch returns_return)

lemma goBack_returns: "returns_string (goBack d page)"
  unfolding goBack_def by (intro returns_catch returns_return)

lemma selectOption_returns: "returns_string (selectOption d rt page selector v)"
  unfolding selectOption_def by (intro returns_catch returns_return)

lemma pressKey_returns: "returns_string (pressKey d page key)"
  unfolding pressKey_def by (intro returns_catch returns_return)

lemma hover_returns: "returns_string (hover d rt page selector)"
  unfolding hover_def by (intro returns_catch returns_if returns_return)

lemma screenshot_returns: "returns_string (screenshot d page)"
  unfolding screenshot_def by (intro returns_catch returns_return)

text \<open>
  Nine of the ten actions return a string whatever the browser does.
\<close>

theorem actions_return_strings:
  "returns_string (navigate d page u) \<and> returns_string (click d rt page selector) \<and>
   returns_string (type d rt page selector text) \<and> returns_string (scroll d page direction) \<and>
   returns_string (goBack d page) \<and> returns_string (selectOption d rt page selector v) \<and>
   returns_string (pressKey d page key) \<and> returns_string (hover d rt page selector) \<and>
   returns_string (screenshot d page)"
  by (intro conjI navigate_returns click_returns type_returns scroll_returns goBack_returns
      selectOption_returns pressKey_returns hover_returns screenshot_returns)

text \<open>
  C2 fails for \<^verbatim>\<open>wait\<close>, the one action without a \<^verbatim>\<open>try\<close>: on a closed page the rejection of
  \<^verbatim>\<open>page.waitForTimeout\<close> leaves \<^verbatim>\<open>wait\<close> as an exception, not as a string.
\<close>

theorem wait_propagates_exception:
  "wait closed_page_driver 0 100 [] =
     (Inl (Error (str ''Target page, context or browser has been closed'')),
      [PageOp 0 (WaitForTimeout 100)])"
  by (simp add: wait_def Let_def io_bind_def call_unit_def closed_page_driver_def)




section \<open>Properties of selector resolution\<close>

text \<open>The equations by which a pattern is run on a given string.\<close>

lemmas rx_eval =
  rx_test_def rx_exec_def rx_search.simps rx_match.simps(5,6) rx_replace_def capture_def
  Plus_def PlusLazy_def Opt_def lit_def lit_ci_def lits_def case_variants_def
  is_letter_def is_space_def is_digit_def is_word_char_def is_dot_def is_upper_def word_at_def
  str_def

lemma rx_search_None:
  "rx_search s r i = None \<Longrightarrow> i \<le> k \<Longrightarrow> k \<le> length s \<Longrightarrow> rx_match s r (k, []) = []"
proof (induction s r i rule: rx_search.induct)
  case (1 s r i)
  from "1.prems"(1) have here: "rx_match s r (i, []) = []"
    by (subst (asm) rx_search.simps) (simp split: list.splits)
  show ?case
  proof (cases "k = i")
    case True
    with here show ?thesis by simp
  next
    case False
    with "1.prems" have lt: "i < length s" and le: "i + 1 \<le> k" by simp_all
    from "1.prems"(1) here lt have "rx_search s r (i + 1) = None"
      by (subst (asm) rx_search.simps) simp
    from "1.IH" [OF here lt this le "1.prems"(3)] show ?thesis .
  qed
qed

lemma rx_search_Some:
  "rx_search s r i = Some (k, st) \<Longrightarrow> i \<le> length s \<Longrightarrow>
   i \<le> k \<and> k \<le> length s \<and> rx_match s r (k, []) \<noteq> [] \<and> st = hd (rx_match s r (k, []))"
proof (induction s r i rule: rx_search.induct)
  case (1 s r i)
  show ?case
  proof (cases "rx_match s r (i, [])")
    case Nil
    with "1.prems" have lt: "i < length s" and rec: "rx_search s r (i + 1) = Some (k, st)"
      by (subst (asm) rx_search.simps, simp split: if_splits)+
    from lt have "i + 1 \<le> length s" by simp
    from "1.IH" [OF Nil lt rec this] show ?thesis by simp
  next
    case (Cons a list)
    with "1.prems" show ?thesis
      by (subst (asm) rx_search.simps) auto
  qed
qed

lemma rx_test_iff: "rx_test s r \<longleftrightarrow> (\<exists>k\<le>length s. rx_match s r (k, []) \<noteq> [])"
proof
  assume "rx_test s r"
  then obtain k st where some: "rx_search s r 0 = Some (k, st)"
    by (auto simp: rx_test_def rx_exec_def)
  from rx_search_Some [OF some] show "\<exists>k\<le>length s. rx_match s r (k, []) \<noteq> []" by auto
next
  assume "\<exists>k\<le>length s. rx_match s r (k, []) \<noteq> []"
  then obtain k where "k \<le> length s" "rx_match s r (k, []) \<noteq> []" by blast
  then have "rx_search s r 0 \<noteq> None" using rx_search_None [of s r 0 k] by blast
  then show "rx_test s r" unfolding rx_test_def rx_exec_def .
qed

lemma ne_Seq_Chr:
  "rx_match s (Seq (Chr p) r) (i, c) \<noteq> [] \<longleftrightarrow>
     i < length s \<and> p (s ! i) \<and> rx_match s r (i + 1, c) \<noteq> []"
  by (cases "i < length s \<and> p (s ! i)") auto

lemma ne_Seq_WordB:
  "rx_match s (Seq WordB r) (i, c) \<noteq> [] \<longleftrightarrow> boundary s i \<and> rx_match s r (i, c) \<noteq> []"
  by (cases "boundary s i") (auto simp: boundary_def)

lemma ne_WordB: "rx_match s WordB (i, c) \<noteq> [] \<longleftrightarrow> boundary s i"
  by (cases "boundary s i") (auto simp: boundary_def)

lemma ne_Seq_Bol:
  "rx_match s (Seq Bol r) (i, c) \<noteq> [] \<longleftrightarrow> i = 0 \<and> rx_match s r (i, c) \<noteq> []"
  by (cases "i = 0") auto

lemma variants_R: "x \<in> set (case_variants 82) \<longleftrightarrow> x \<in> {82, 114}"
  and variants_O: "x \<in> set (case_variants 79) \<longleftrightarrow> x \<in> {79, 111}"
  and variants_T: "x \<in> set (case_variants 84) \<longleftrightarrow> x \<in> {84, 116}"
  by (auto simp: case_variants_def)

lemma re_root_unfold:
  "re_root = Seq WordB (Seq (Chr (\<lambda>x. x \<in> {82, 114})) (Seq (Chr (\<lambda>x. x \<in> {79, 111}))
     (Seq (Chr (\<lambda>x. x \<in> {79, 111})) (Seq (Chr (\<lambda>x. x \<in> {84, 116})) WordB))))"
  by (simp only: re_root_def seqs.simps lit_ci_def variants_R variants_O variants_T)

lemma re_root_match: "rx_match s re_root (i, c) \<noteq> [] \<longleftrightarrow> root_at s i"
proof -
  have e: "i + 1 + 1 = i + 2" "i + 2 + 1 = i + 3" "i + 3 + 1 = i + 4" by simp_all
  show ?thesis
    unfolding re_root_unfold ne_Seq_Chr ne_Seq_WordB ne_WordB root_at_def e
    by auto
qed

lemma star_chr_unfold:
  "rx_match s (Star (Chr p)) st =
     (if fst st < length s \<and> p (s ! fst st) then rx_match s (Star (Chr p)) (fst st + 1, snd st)
      else []) @ [st]"
  by (subst rx_match.simps(5)) auto

lemma star_chr_results:
  "st' \<in> set (rx_match s (Star (Chr p)) st) \<Longrightarrow>
   fst st \<le> fst st' \<and> (fst st' \<le> length s \<or> fst st' = fst st) \<and>
   (\<forall>k. fst st \<le> k \<and> k < fst st' \<longrightarrow> p (s ! k))"
proof (induction "length s - fst st" arbitrary: st rule: less_induct)
  case less
  show ?case
  proof (cases "fst st < length s \<and> p (s ! fst st)")
    case False
    with less.prems have "st' = st" by (subst (asm) star_chr_unfold) simp
    then show ?thesis by auto
  next
    case True
    with less.prems have "st' = st \<or> st' \<in> set (rx_match s (Star (Chr p)) (fst st + 1, snd st))"
      by (subst (asm) star_chr_unfold) auto
    then show ?thesis
    proof
      assume "st' = st"
      then show ?thesis by auto
    next
      assume rec: "st' \<in> set (rx_match s (Star (Chr p)) (fst st + 1, snd st))"
      from True have "length s - fst (fst st + 1, snd st) < length s - fst st" by auto
      from less.hyps [OF this rec] have ih: "fst st + 1 \<le> fst st'"
        "fst st' \<le> length s \<or> fst st' = fst st + 1"
        "\<forall>k. fst st + 1 \<le> k \<and> k < fst st' \<longrightarrow> p (s ! k)" by simp_all
      have "\<forall>k. fst st \<le> k \<and> k < fst st' \<longrightarrow> p (s ! k)"
      proof (intro allI impI)
        fix k assume k: "fst st \<le> k \<and> k < fst st'"
        show "p (s ! k)"
        proof (cases "k = fst st")
          case True
          with \<open>fst st < length s \<and> p (s ! fst st)\<close> show ?thesis by simp
        next
          case False
          with k have "fst st + 1 \<le> k \<and> k < fst st'" by simp
          with ih(3) show ?thesis by blast
        qed
      qed
      moreover from ih(1) have "fst st \<le> fst st'" by simp
      moreover from ih(2) True have "fst st' \<le> length s" by auto
      ultimately show ?thesis by simp
    qed
  qed
qed

lemma mem_Seq_Chr:
  "st \<in> set (rx_match s (Seq (Chr p) r) (i, c)) \<longleftrightarrow>
     i < length s \<and> p (s ! i) \<and> st \<in> set (rx_match s r (i + 1, c))"
  by (cases "i < length s \<and> p (s ! i)") auto

lemma mem_Seq_Bol:
  "st \<in> set (rx_match s (Seq Bol r) (i, c)) \<longleftrightarrow> i = 0 \<and> st \<in> set (rx_match s r (i, c))"
  by (cases "i = 0") auto

lemma ne_Seq_first: "rx_match s (Seq a b) st \<noteq> [] \<Longrightarrow> rx_match s a st \<noteq> []"
  by (cases "rx_match s a st") auto

lemma ne_Chr: "rx_match s (Chr p) (i, c) \<noteq> [] \<longleftrightarrow> i < length s \<and> p (s ! i)"
  by (cases "i < length s \<and> p (s ! i)") auto

lemma re_list_prefix_unfold:
  "re_list_prefix =
     Seq Bol (Seq (Chr (\<lambda>x. x = 45)) (Seq (Chr is_space) (Star (Chr is_space))))"
  by (simp only: re_list_prefix_def seqs.simps lit_def Plus_def)

lemma list_prefix_results:
  assumes "st \<in> set (rx_match s re_list_prefix (i, c))"
  shows "i = 0 \<and> 2 \<le> fst st \<and> fst st \<le> length s \<and> s ! 0 = 45 \<and>
         (\<forall>k. 1 \<le> k \<and> k < fst st \<longrightarrow> is_space (s ! k))"
proof -
  from assms have i: "i = 0" and s0: "s ! 0 = 45" and s1: "1 < length s" "is_space (s ! 1)"
    and st: "st \<in> set (rx_match s (Star (Chr is_space)) (2, c))"
    unfolding re_list_prefix_unfold mem_Seq_Bol mem_Seq_Chr by (auto simp: numeral_2_eq_2)
  from star_chr_results [OF st] s1 have le: "2 \<le> fst st" "fst st \<le> length s"
    and sp: "\<forall>k. 2 \<le> k \<and> k < fst st \<longrightarrow> is_space (s ! k)" by auto
  have "\<forall>k. 1 \<le> k \<and> k < fst st \<longrightarrow> is_space (s ! k)"
  proof (intro allI impI)
    fix k assume k: "1 \<le> k \<and> k < fst st"
    show "is_space (s ! k)"
    proof (cases "k = 1")
      case True
      with s1 show ?thesis by simp
    next
      case False
      with k have "2 \<le> k \<and> k < fst st" by simp
      with sp show ?thesis by blast
    qed
  qed
  with i s0 le show ?thesis by simp
qed

lemma re_tree_path_unfold:
  "re_tree_path =
     Seq Bol (Seq (Seq (Chr is_letter) (Star (Chr is_letter)))
       (seqs [Star (Chr is_space), lit 62, Star (Chr is_space), Plus (Chr is_letter)]))"
  by (simp only: re_tree_path_def seqs.simps Plus_def)

lemma tree_path_needs_letter:
  assumes "rx_match s re_tree_path (i, c) \<noteq> []"
  shows "i = 0 \<and> 0 < length s \<and> is_letter (s ! 0)"
proof -
  from assms have i: "i = 0" and
    r: "rx_match s (Seq (Seq (Chr is_letter) (Star (Chr is_letter)))
          (seqs [Star (Chr is_space), lit 62, Star (Chr is_space), Plus (Chr is_letter)])) (i, c) \<noteq> []"
    unfolding re_tree_path_unfold ne_Seq_Bol by blast+
  from ne_Seq_first [OF ne_Seq_first [OF r]] have "i < length s \<and> is_letter (s ! i)"
    unfolding ne_Chr .
  with i show ?thesis by simp
qed

lemma is_space_not_root: "is_space x \<Longrightarrow> x \<notin> {82, 114}"
  by (auto simp: is_space_def)

lemma is_space_not_word: "is_space x \<Longrightarrow> \<not> is_word_char x"
  by (auto simp: is_space_def is_word_char_def)

lemma root_at_drop:
  assumes r: "root_at s i" and j: "2 \<le> j" "j \<le> length s" and s0: "s ! 0 = 45"
    and sp: "\<forall>k. 1 \<le> k \<and> k < j \<longrightarrow> is_space (s ! k)"
  shows "j \<le> i \<and> root_at (drop j s) (i - j)"
proof -
  from r have rb: "boundary s i" "boundary s (i + 4)" and rl: "i + 3 < length s"
    and r0: "s ! i \<in> {82, 114}" and r1: "s ! (i + 1) \<in> {79, 111}"
    and r2: "s ! (i + 2) \<in> {79, 111}" and r3: "s ! (i + 3) \<in> {84, 116}"
    by (simp_all add: root_at_def)
  have ji: "j \<le> i"
  proof (rule ccontr)
    assume "\<not> j \<le> i"
    then have lt: "i < j" by simp
    show False
    proof (cases "i = 0")
      case True
      with r0 s0 show False by simp
    next
      case False
      with lt sp have "is_space (s ! i)" by simp
      from is_space_not_root [OF this] r0 show False by simp
    qed
  qed
  have wa: "\<And>k. word_at (drop j s) k = word_at s (j + k)"
    using j by (auto simp: word_at_def)
  have prev: "\<not> word_at s (j - 1)"
  proof -
    from j sp have "is_space (s ! (j - 1))" by simp
    from is_space_not_word [OF this] show ?thesis by (simp add: word_at_def)
  qed
  have b: "\<And>k. j \<le> k \<Longrightarrow> boundary s k \<Longrightarrow> boundary (drop j s) (k - j)"
  proof -
    fix k assume k: "j \<le> k" and bk: "boundary s k"
    show "boundary (drop j s) (k - j)"
    proof (cases "k = j")
      case True
      with bk prev j show ?thesis by (simp add: boundary_def wa)
    next
      case False
      with k have e: "j + (k - j - 1) = k - 1" "j + (k - j) = k" "0 < k - j" "0 < k" by simp_all
      have "boundary (drop j s) (k - j) \<longleftrightarrow>
          ((0 < k - j \<and> word_at s (j + (k - j - 1))) \<noteq> word_at s (j + (k - j)))"
        unfolding boundary_def wa ..
      also have "\<dots> \<longleftrightarrow> (word_at s (k - 1) \<noteq> word_at s k)"
        using e by simp
      also have "\<dots> \<longleftrightarrow> boundary s k"
        using e(4) by (simp add: boundary_def)
      finally show ?thesis using bk by simp
    qed
  qed
  from ji have e4: "i + 4 - j = i - j + 4" by simp
  from rb(1) ji have b0: "boundary (drop j s) (i - j)" by (rule b [rotated])
  from ji have "j \<le> i + 4" by simp
  then have "boundary (drop j s) (i + 4 - j)" using rb(2) by (rule b)
  then have b4: "boundary (drop j s) (i - j + 4)" unfolding e4 .
  from rl ji have len: "i - j + 3 < length (drop j s)" by simp
  from ji j rl have n: "drop j s ! (i - j) = s ! i" "drop j s ! (i - j + 1) = s ! (i + 1)"
    "drop j s ! (i - j + 2) = s ! (i + 2)" "drop j s ! (i - j + 3) = s ! (i + 3)"
    by simp_all
  have "root_at (drop j s) (i - j)"
    unfolding root_at_def n using b0 b4 len r0 r1 r2 r3 by simp
  with ji show ?thesis by simp
qed

lemma resolveLocator_rejects:
  assumes "rx_test (rx_replace selector re_list_prefix []) re_root \<or>
           rx_test (rx_replace selector re_list_prefix []) re_tree_path \<and>
           rx_test (rx_replace selector re_list_prefix []) re_number"
  shows "resolveLocator rt selector =
           Inl (Error (invalid_selector_message (rx_replace selector re_list_prefix [])))"
  unfolding resolveLocator_def Let_def using assms by (rule if_P)

text \<open>
  C3, as the code has it. A selector in which the word ROOT occurs (\<^verbatim>\<open>/\bROOT\b/i\<close>), or that
  matches \<^verbatim>\<open>/^[A-Z]+\s*>\s*[A-Z]+/i\<close> and holds a number standing as a word of its own
  (\<^verbatim>\<open>/\b\d+\b/\<close>), makes \<^verbatim>\<open>resolveLocator\<close> throw the error about tree paths, for the selector
  with its list prefix stripped. The patterns are tested here on the selector as it is given.
\<close>

theorem tree_path_selectors_rejected:
  assumes "rx_test selector re_root \<or> (rx_test selector re_tree_path \<and> rx_test selector re_number)"
  shows "\<exists>stripped. resolveLocator rt selector = Inl (Error (invalid_selector_message stripped))"
proof (cases "rx_exec selector re_list_prefix")
  case None
  then have "rx_replace selector re_list_prefix [] = selector" by (simp add: rx_replace_def)
  with assms have "rx_test (rx_replace selector re_list_prefix []) re_root \<or>
           rx_test (rx_replace selector re_list_prefix []) re_tree_path \<and>
           rx_test (rx_replace selector re_list_prefix []) re_number" by simp
  from resolveLocator_rejects [OF this] show ?thesis by blast
next
  case (Some m)
  obtain i st where m: "m = (i, st)" by (cases m)
  from Some m have some: "rx_search selector re_list_prefix 0 = Some (i, st)"
    by (simp add: rx_exec_def)
  from rx_search_Some [OF some] have ne: "rx_match selector re_list_prefix (i, []) \<noteq> []"
    and st: "st = hd (rx_match selector re_list_prefix (i, []))" by simp_all
  then have "st \<in> set (rx_match selector re_list_prefix (i, []))" by simp
  from list_prefix_results [OF this] have i: "i = 0" and j: "2 \<le> fst st" "fst st \<le> length selector"
    and s0: "selector ! 0 = 45"
    and sp: "\<forall>k. 1 \<le> k \<and> k < fst st \<longrightarrow> is_space (selector ! k)" by simp_all
  from Some m i have stripped: "rx_replace selector re_list_prefix [] = drop (fst st) selector"
    by (simp add: rx_replace_def)
  have "\<not> rx_test selector re_tree_path"
  proof
    assume "rx_test selector re_tree_path"
    then obtain k where "rx_match selector re_tree_path (k, []) \<noteq> []"
      unfolding rx_test_iff by blast
    from tree_path_needs_letter [OF this] s0 show False by (simp add: is_letter_def)
  qed
  with assms have "rx_test selector re_root" by blast
  then obtain k where "root_at selector k" unfolding rx_test_iff re_root_match by blast
  from root_at_drop [OF this j s0 sp]
  have le: "fst st \<le> k" and r: "root_at (drop (fst st) selector) (k - fst st)" by simp_all
  from r have "k - fst st \<le> length (drop (fst st) selector)" by (simp add: root_at_def)
  with r have "rx_test (drop (fst st) selector) re_root"
    unfolding rx_test_iff re_root_match by blast
  with stripped have "rx_test (rx_replace selector re_list_prefix []) re_root \<or>
           rx_test (rx_replace selector re_list_prefix []) re_tree_path \<and>
           rx_test (rx_replace selector re_list_prefix []) re_number" by simp
  from resolveLocator_rejects [OF this] show ?thesis by blast
qed

text \<open>A witness for C3: the path \<^verbatim>\<open>DIV > SPAN > 1\<close>.\<close>

theorem tree_path_selectors_rejected_witness:
  "(rx_test (str ''DIV > SPAN > 1'') re_root \<or>
    (rx_test (str ''DIV > SPAN > 1'') re_tree_path \<and> rx_test (str ''DIV > SPAN > 1'') re_number)) \<and>
   (\<exists>stripped. resolveLocator sample_runtime (str ''DIV > SPAN > 1'') =
      Inl (Error (invalid_selector_message stripped)))"
proof -
  have "rx_test (str ''DIV > SPAN > 1'') re_tree_path \<and> rx_test (str ''DIV > SPAN > 1'') re_number"
    by (simp add: rx_eval re_tree_path_def re_number_def)
  then have h: "rx_test (str ''DIV > SPAN > 1'') re_root \<or>
    (rx_test (str ''DIV > SPAN > 1'') re_tree_path \<and> rx_test (str ''DIV > SPAN > 1'') re_number)"
    by simp
  from h tree_path_selectors_rejected [OF h] show ?thesis by blast
qed

text \<open>
  C3 as the specification states it fails: \<^verbatim>\<open>DIV > SPAN1\<close> matches the pattern of the
  specification, its digit not being a word of its own it passes the test of the source, and
  it is resolved to a CSS locator.
\<close>

theorem tree_path_selectors_counterexample:
  "rx_test (str ''DIV > SPAN1'') spec_tree_path_pattern \<and>
   resolveLocator sample_runtime (str ''DIV > SPAN1'') = Inr (Locator (str ''DIV > SPAN1''))"
proof -
  have "rx_test (str ''DIV > SPAN1'') spec_tree_path_pattern"
    by (simp add: rx_eval spec_tree_path_pattern_def)
  moreover have "resolveLocator sample_runtime (str ''DIV > SPAN1'') =
      Inr (Locator (str ''DIV > SPAN1''))"
    by (simp add: rx_eval resolveLocator_def nested_aria_def quoted_aria_def unquoted_aria_def
        role_prefix_def plain_locator_def ARIA_ROLES_def sample_runtime_def ascii_lower_def
        startsWith_def re_list_prefix_def re_root_def re_tree_path_def re_number_def
        re_nested_def re_aria_def re_aria_no_quote_def re_role_def re_css_def Let_def)
  ultimately show ?thesis by simp
qed

section \<open>Properties of the security guard\<close>

text \<open>
  C7. For a tool call whose name is one of the eight meta-tools, \<^verbatim>\<open>checkAction\<close> returns true
  and leaves the trace as it was: the confirm callback is not called.
\<close>

theorem checkAction_meta_tools:
  assumes "fn_name toolCall \<in> set meta_tools"
  shows "checkAction d rt toolCall pageContext w = (Inr True, w)"
  using assms by (simp add: checkAction_def Let_def io_return_def)

text \<open>A witness for C7: a \<^verbatim>\<open>scroll\<close> call.\<close>

theorem checkAction_meta_tools_witness:
  "fn_name sample_scroll_call \<in> set meta_tools \<and>
   checkAction still_page_driver sample_runtime sample_scroll_call
     (str ''Example Domain (https://example.com/)'') [] = (Inr True, [])"
proof -
  have h: "fn_name sample_scroll_call \<in> set meta_tools"
    by (simp add: sample_scroll_call_def meta_tools_def str_def)
  from h checkAction_meta_tools [OF h] show ?thesis by simp
qed

section \<open>Properties of the context manager\<close>

lemma answerable_append: "answerable cur (xs @ ys) = answerable (answerable cur xs) ys"
  by (induction cur xs rule: answerable.induct) auto

lemma paired_append:
  "paired_from cur (xs @ ys) \<longleftrightarrow> paired_from cur xs \<and> paired_from (answerable cur xs) ys"
  by (induction cur xs rule: paired_from.induct) auto

lemma paired_head: "xs = [] \<or> \<not> is_tool (hd xs) \<Longrightarrow> paired_from cur xs = paired_from cur' xs"
  by (cases xs; cases "hd xs") auto

lemma answerable_head:
  "xs \<noteq> [] \<Longrightarrow> \<not> is_tool (hd xs) \<Longrightarrow> answerable cur xs = answerable cur' xs"
  by (cases xs; cases "hd xs") auto

lemma paired_nil_head: "paired_from [] xs \<Longrightarrow> xs = [] \<or> \<not> is_tool (hd xs)"
  by (cases xs; cases "hd xs") auto

lemma paired_drop:
  assumes "paired_from [] xs" and "k = 0 \<or> length xs \<le> k \<or> \<not> is_tool (xs ! k)"
  shows "paired_from [] (drop k xs)"
proof (cases "k = 0 \<or> length xs \<le> k")
  case True
  with assms show ?thesis by auto
next
  case False
  with assms have k: "k < length xs" "\<not> is_tool (xs ! k)" by auto
  have "paired_from [] (take k xs @ drop k xs)" using assms by simp
  then have "paired_from (answerable [] (take k xs)) (drop k xs)"
    unfolding paired_append by simp
  moreover have "\<not> is_tool (hd (drop k xs))" using k by (simp add: hd_drop_conv_nth)
  ultimately show ?thesis using paired_head by blast
qed

lemma findSafeWindowStart_result:
  "findSafeWindowStart msgs start = Inr k \<Longrightarrow> 0 < start \<Longrightarrow>
   0 \<le> k \<and> (k = 0 \<or> (nat k < length msgs \<and> \<not> is_tool (msgs ! nat k)))"
proof (induction msgs start rule: findSafeWindowStart.induct)
  case (1 msgs start)
  from "1.prems" have inr: "nat start < length msgs"
    by (subst (asm) findSafeWindowStart.simps) (simp split: if_splits)
  show ?case
  proof (cases "is_tool (msgs ! nat start)")
    case False
    with "1.prems" inr have "k = start"
      by (subst (asm) findSafeWindowStart.simps) simp
    with False inr "1.prems" show ?thesis by simp
  next
    case True
    with "1.prems" inr have rec: "findSafeWindowStart msgs (start - 1) = Inr k"
      by (subst (asm) findSafeWindowStart.simps) simp
    show ?thesis
    proof (cases "0 < start - 1")
      case True
      from "1.IH" [OF "1.prems"(2) inr \<open>is_tool (msgs ! nat start)\<close> rec True] show ?thesis .
    next
      case False
      with rec have "k = start - 1"
        by (subst (asm) findSafeWindowStart.simps) simp
      with False "1.prems" show ?thesis by simp
    qed
  qed
qed

lemma findSafeWindowStart_total:
  "start < int (length msgs) \<Longrightarrow> \<exists>k. findSafeWindowStart msgs start = Inr k"
proof (induction msgs start rule: findSafeWindowStart.induct)
  case (1 msgs start)
  then show ?case
    by (subst findSafeWindowStart.simps) auto
qed

lemma slice_from_paired:
  assumes "paired_from [] msgs" "findSafeWindowStart msgs start = Inr k" "0 < start"
  shows "paired_from [] (slice_from msgs k)"
proof -
  from findSafeWindowStart_result [OF assms(2,3)]
  have "0 \<le> k" "k = 0 \<or> (nat k < length msgs \<and> \<not> is_tool (msgs ! nat k))" by auto
  then show ?thesis
    using paired_drop [OF assms(1), of "nat k"] by (auto simp: slice_from_def)
qed

lemma remove_first_user_cases:
  "remove_first_user xs = xs \<or>
   (\<exists>a u b. xs = a @ User u # b \<and> remove_first_user xs = a @ b)"
proof (induction xs)
  case Nil
  then show ?case by simp
next
  case (Cons m ms)
  show ?case
  proof (cases "is_user m")
    case True
    then obtain u where "m = User u" by (cases m) auto
    then have "m # ms = [] @ User u # ms \<and> remove_first_user (m # ms) = [] @ ms" by simp
    then show ?thesis by blast
  next
    case False
    from Cons.IH show ?thesis
    proof
      assume "remove_first_user ms = ms"
      with False show ?thesis by simp
    next
      assume "\<exists>a u b. ms = a @ User u # b \<and> remove_first_user ms = a @ b"
      then obtain a u b where "ms = a @ User u # b" "remove_first_user ms = a @ b" by blast
      with False have "m # ms = (m # a) @ User u # b \<and> remove_first_user (m # ms) = (m # a) @ b"
        by simp
      then show ?thesis by blast
    qed
  qed
qed

lemma removed_cases:
  "rev (remove_first_user (rev xs)) = xs \<or>
   (\<exists>a u b. xs = a @ User u # b \<and> rev (remove_first_user (rev xs)) = a @ b)"
proof -
  from remove_first_user_cases [of "rev xs"] show ?thesis
  proof
    assume "remove_first_user (rev xs) = rev xs"
    then show ?thesis by simp
  next
    assume "\<exists>a u b. rev xs = a @ User u # b \<and> remove_first_user (rev xs) = a @ b"
    then obtain a u b where ab: "rev xs = a @ User u # b" "remove_first_user (rev xs) = a @ b"
      by blast
    from ab(1) have "xs = rev b @ User u # rev a"
      by (metis rev_append rev.simps(2) rev_rev_ident append.assoc append_Cons append_Nil)
    moreover from ab(2) have "rev (remove_first_user (rev xs)) = rev b @ rev a" by simp
    ultimately show ?thesis by blast
  qed
qed

lemma removed_paired:
  assumes "paired_from [] xs" "ids \<subseteq> tc_id ` set (answerable [] xs)"
  shows "paired_from [] (rev (remove_first_user (rev xs))) \<and>
         ids \<subseteq> tc_id ` set (answerable [] (rev (remove_first_user (rev xs))))"
proof -
  from removed_cases [of xs] show ?thesis
  proof
    assume "rev (remove_first_user (rev xs)) = xs"
    with assms show ?thesis by simp
  next
    assume "\<exists>a u b. xs = a @ User u # b \<and> rev (remove_first_user (rev xs)) = a @ b"
    then obtain a u b where ab: "xs = a @ User u # b" "rev (remove_first_user (rev xs)) = a @ b"
      by blast
    from assms(1) ab(1) have pa: "paired_from [] a" and pb: "paired_from [] b"
      by (simp_all add: paired_append)
    from paired_nil_head [OF pb] have hb: "b = [] \<or> \<not> is_tool (hd b)" .
    have p: "paired_from [] (a @ b)"
      using pa pb paired_head [OF hb, of "answerable [] a" "[]"] by (simp add: paired_append)
    have "ids \<subseteq> tc_id ` set (answerable [] (a @ b))"
    proof (cases "b = []")
      case True
      with assms(2) ab(1) show ?thesis by (simp add: answerable_append)
    next
      case False
      with hb have "answerable (answerable [] a) b = answerable [] b"
        using answerable_head by blast
      with assms(2) ab(1) show ?thesis by (simp add: answerable_append)
    qed
    with p ab(2) show ?thesis by simp
  qed
qed

lemma compress_paired:
  assumes "paired_from [] (messages c)"
  shows "paired_from [] (messages (snd (compressIfNeeded c)))"
proof (cases "tokenBudget c < estimateTokens (messages c) \<and>
              maxHistoryMessages c < int (length (messages c))")
  case False
  with assms show ?thesis by (auto simp: compressIfNeeded_def Let_def)
next
  case True
  show ?thesis
  proof (cases "findSafeWindowStart (messages c) (int (length (messages c)) - maxHistoryMessages c)")
    case (Inl e)
    with True assms show ?thesis by (simp add: compressIfNeeded_def Let_def)
  next
    case (Inr k)
    from True have "0 < int (length (messages c)) - maxHistoryMessages c" by simp
    from slice_from_paired [OF assms Inr this] True Inr show ?thesis
      by (simp add: compressIfNeeded_def Let_def)
  qed
qed

lemma produced_well_paired: "produced rt s \<Longrightarrow> well_paired s"
proof (induction rule: produced.induct)
  case (started maxHistory budget t)
  then show ?case by (simp add: well_paired_def setTask_def new_ContextManager_def)
next
  case (observed c pending content)
  then have "paired_from [] (messages (c\<lparr>messages := messages c @ [User content]\<rparr>))"
    by (simp add: well_paired_def paired_append)
  from compress_paired [OF this] show ?case
    by (simp add: well_paired_def addObservation_def)
next
  case (assistant c pending content toolCalls)
  then show ?case
    by (simp add: well_paired_def addAssistantMessage_def paired_append answerable_append)
next
  case (answered c pending toolCall res)
  then show ?case
    by (auto simp: well_paired_def addToolResult_def paired_append answerable_append)
next
  case (rewound c pending)
  then show ?case
    using removed_paired [of "messages c" "tc_id ` set pending"]
    by (simp add: well_paired_def removeLastObservation_def)
qed

lemma paired_owner:
  "paired_from cur xs \<Longrightarrow> i < length xs \<Longrightarrow> xs ! i = Tool t r \<Longrightarrow>
   t \<in> tc_id ` set cur \<or>
   (\<exists>j<i. \<exists>content tcs. xs ! j = Assistant content (Some tcs) \<and> t \<in> tc_id ` set tcs)"
proof (induction cur xs arbitrary: i rule: paired_from.induct)
  case (1 cur)
  then show ?case by simp
next
  case (2 cur i' c ms)
  show ?case
  proof (cases i)
    case 0
    with 2 show ?thesis by auto
  next
    case (Suc n)
    with 2 have "t \<in> tc_id ` set cur \<or>
      (\<exists>j<n. \<exists>content tcs. ms ! j = Assistant content (Some tcs) \<and> t \<in> tc_id ` set tcs)"
      by auto
    then show ?thesis using Suc by auto
  qed
next
  case (3 cur c tcs ms)
  show ?case
  proof (cases i)
    case 0
    with 3 show ?thesis by auto
  next
    case (Suc n)
    with 3 have "t \<in> tc_id ` set (case tcs of None \<Rightarrow> [] | Some l \<Rightarrow> l) \<or>
      (\<exists>j<n. \<exists>content tcs. ms ! j = Assistant content (Some tcs) \<and> t \<in> tc_id ` set tcs)"
      by auto
    then show ?thesis
    proof
      assume a: "t \<in> tc_id ` set (case tcs of None \<Rightarrow> [] | Some l \<Rightarrow> l)"
      then obtain l where "tcs = Some l" "t \<in> tc_id ` set l" by (cases tcs) auto
      then have "(Assistant c tcs # ms) ! 0 = Assistant c (Some l) \<and> t \<in> tc_id ` set l" by simp
      then show ?thesis using Suc by blast
    next
      assume "\<exists>j<n. \<exists>content tcs. ms ! j = Assistant content (Some tcs) \<and> t \<in> tc_id ` set tcs"
      then show ?thesis using Suc by auto
    qed
  qed
next
  case (4 cur c ms)
  show ?case
  proof (cases i)
    case 0
    with 4 show ?thesis by auto
  next
    case (Suc n)
    with 4 have "t \<in> tc_id ` set [] \<or>
      (\<exists>j<n. \<exists>content tcs. ms ! j = Assistant content (Some tcs) \<and> t \<in> tc_id ` set tcs)"
      by auto
    then show ?thesis using Suc by auto
  qed
next
  case (5 cur c ms)
  show ?case
  proof (cases i)
    case 0
    with 5 show ?thesis by auto
  next
    case (Suc n)
    with 5 have "t \<in> tc_id ` set [] \<or>
      (\<exists>j<n. \<exists>content tcs. ms ! j = Assistant content (Some tcs) \<and> t \<in> tc_id ` set tcs)"
      by auto
    then show ?thesis using Suc by auto
  qed
qed

lemma recent_paired:
  assumes "paired_from [] (messages c)" "getRecentMessages c = Inr window"
  shows "paired_from [] window"
proof (cases "int (length (messages c)) \<le> maxHistoryMessages c")
  case True
  with assms show ?thesis by (simp add: getRecentMessages_def)
next
  case False
  with assms(2) obtain k where
    k: "findSafeWindowStart (messages c) (int (length (messages c)) - maxHistoryMessages c) = Inr k"
    and w: "window = slice_from (messages c) k"
    by (auto simp: getRecentMessages_def Let_def split: sum.splits)
  from False have "0 < int (length (messages c)) - maxHistoryMessages c" by simp
  from slice_from_paired [OF assms(1) k this] w show ?thesis by simp
qed

lemma getMessages_paired:
  assumes "paired_from [] (messages c)" "getMessages b c = Inr msgs"
  shows "paired_from [] msgs"
proof -
  from assms(2) obtain window where w: "getRecentMessages c = Inr window"
    and m: "msgs = [System (b (task c))] @
              (if actionHistory c \<noteq> [] then [User (summarizeActions (actionHistory c))] else []) @
              window"
    by (auto simp: getMessages_def Let_def split: sum.splits)
  from recent_paired [OF assms(1) w] m show ?thesis by simp
qed

lemma getMessages_total:
  assumes "0 < maxHistoryMessages c"
  shows "\<exists>msgs. getMessages b c = Inr msgs"
proof (cases "int (length (messages c)) \<le> maxHistoryMessages c")
  case True
  then show ?thesis by (simp add: getMessages_def getRecentMessages_def Let_def)
next
  case False
  from assms have "int (length (messages c)) - maxHistoryMessages c < int (length (messages c))"
    by simp
  from findSafeWindowStart_total [OF this] obtain k where
    "findSafeWindowStart (messages c) (int (length (messages c)) - maxHistoryMessages c) = Inr k"
    by blast
  with False show ?thesis by (simp add: getMessages_def getRecentMessages_def Let_def)
qed

text \<open>
  C4. For a context produced by the operations of the manager, every tool result having been
  added for a call of the latest assistant message: \<^verbatim>\<open>getMessages\<close> returns a list when the
  window holds at least one message; the window does not begin with a tool result; and
  every tool result of the returned list has a strictly earlier assistant message in that
  list whose tool calls include its id.
\<close>

theorem window_keeps_tool_pairs:
  assumes "produced rt (c, pending)"
  shows "(0 < maxHistoryMessages c \<longrightarrow> (\<exists>msgs. getMessages b c = Inr msgs)) \<and>
         (\<forall>window. getRecentMessages c = Inr window \<and> window \<noteq> [] \<longrightarrow> \<not> is_tool (hd window)) \<and>
         (\<forall>msgs i t r. getMessages b c = Inr msgs \<and> i < length msgs \<and> msgs ! i = Tool t r \<longrightarrow>
            (\<exists>j<i. \<exists>content tcs. msgs ! j = Assistant content (Some tcs) \<and> t \<in> tc_id ` set tcs))"
proof -
  from produced_well_paired [OF assms] have p: "paired_from [] (messages c)"
    by (simp add: well_paired_def)
  have "\<forall>window. getRecentMessages c = Inr window \<and> window \<noteq> [] \<longrightarrow> \<not> is_tool (hd window)"
    using recent_paired [OF p] paired_nil_head by blast
  moreover have "\<forall>msgs i t r. getMessages b c = Inr msgs \<and> i < length msgs \<and> msgs ! i = Tool t r \<longrightarrow>
            (\<exists>j<i. \<exists>content tcs. msgs ! j = Assistant content (Some tcs) \<and> t \<in> tc_id ` set tcs)"
  proof (intro allI impI)
    fix msgs i t r
    assume a: "getMessages b c = Inr msgs \<and> i < length msgs \<and> msgs ! i = Tool t r"
    from getMessages_paired [OF p] a have "paired_from [] msgs" by blast
    from paired_owner [OF this] a show
      "\<exists>j<i. \<exists>content tcs. msgs ! j = Assistant content (Some tcs) \<and> t \<in> tc_id ` set tcs"
      by fastforce
  qed
  ultimately show ?thesis using getMessages_total by blast
qed

text \<open>
  A witness for C4: with a window of one message the target start is the tool result, and
  the window is moved back to the assistant message that owns it.
\<close>

theorem window_keeps_tool_pairs_witness:
  "produced sample_runtime (sample_context, [sample_scroll_call]) \<and>
   0 < maxHistoryMessages sample_context \<and>
   getMessages (\<lambda>t. t) sample_context =
     Inr [System (str ''task''),
          User (summarizeActions (actionHistory sample_context)),
          Assistant None (Some [sample_scroll_call]),
          Tool (str ''call_1'') (str ''Scrolled'')] \<and>
   (\<exists>j<3. \<exists>content tcs.
      [System (str ''task''),
       User (summarizeActions (actionHistory sample_context)),
       Assistant None (Some [sample_scroll_call]),
       Tool (str ''call_1'') (str ''Scrolled'')] ! j = Assistant content (Some tcs) \<and>
      str ''call_1'' \<in> tc_id ` set tcs)"
proof -
  have p0: "produced sample_runtime (setTask (new_ContextManager 1 8000) (str ''task''), [])"
    by (rule produced.started)
  have p1: "produced sample_runtime
      (snd (addObservation (setTask (new_ContextManager 1 8000) (str ''task'')) (str ''page 1'')), [])"
    by (rule produced.observed [OF p0])
  have p2: "produced sample_runtime
      (snd (addObservation
              (snd (addObservation (setTask (new_ContextManager 1 8000) (str ''task''))
                      (str ''page 1'')))
              (str ''page 2'')), [])"
    by (rule produced.observed [OF p1])
  have p3: "produced sample_runtime
      (addAssistantMessage
         (snd (addObservation
                 (snd (addObservation (setTask (new_ContextManager 1 8000) (str ''task''))
                         (str ''page 1'')))
                 (str ''page 2'')))
         None (Some [sample_scroll_call]), [sample_scroll_call])"
    using produced.assistant [OF p2, where content = None and toolCalls = "Some [sample_scroll_call]"]
    by simp
  have h: "produced sample_runtime (sample_context, [sample_scroll_call])"
    unfolding sample_context_def
    by (rule produced.answered [OF p3]) simp
  have m: "messages sample_context =
      [User (str ''page 1''), User (str ''page 2''), Assistant None (Some [sample_scroll_call]),
       Tool (str ''call_1'') (str ''Scrolled'')]"
    by (simp add: sample_context_def addToolResult_def addAssistantMessage_def addObservation_def
        compressIfNeeded_def setTask_def new_ContextManager_def estimateTokens_def ceil_div4_def
        sample_scroll_call_def str_def Let_def)
  have mx: "maxHistoryMessages sample_context = 1" and tk: "task sample_context = str ''task''"
    and ah: "actionHistory sample_context \<noteq> []"
    by (simp_all add: sample_context_def addToolResult_def addAssistantMessage_def
        addObservation_def compressIfNeeded_def setTask_def new_ContextManager_def
        estimateTokens_def ceil_div4_def str_def Let_def)
  have f: "findSafeWindowStart (messages sample_context) 3 = Inr 2"
    unfolding m by (simp add: findSafeWindowStart.simps)
  have g: "getMessages (\<lambda>t. t) sample_context =
     Inr [System (str ''task''),
          User (summarizeActions (actionHistory sample_context)),
          Assistant None (Some [sample_scroll_call]),
          Tool (str ''call_1'') (str ''Scrolled'')]"
    using f ah by (simp add: getMessages_def getRecentMessages_def Let_def mx tk m slice_from_def)
  from window_keeps_tool_pairs [OF h, of "\<lambda>t. t"] g
  have "\<exists>j<3. \<exists>content tcs.
      [System (str ''task''),
       User (summarizeActions (actionHistory sample_context)),
       Assistant None (Some [sample_scroll_call]),
       Tool (str ''call_1'') (str ''Scrolled'')] ! j = Assistant content (Some tcs) \<and>
      str ''call_1'' \<in> tc_id ` set tcs"
    by fastforce
  with h g mx show ?thesis by simp
qed

section \<open>Properties of the tool executor\<close>

text \<open>
  C10. When the arguments of a tool call are not valid JSON, \<^verbatim>\<open>execute\<close> returns the error
  result that names the tool and quotes the arguments, with \<open>isDone\<close> and \<open>needsUserInput\<close>
  false, and leaves the trace as it was: neither the page, nor the guard's callback, nor an
  action is called.
\<close>

theorem execute_invalid_json:
  assumes "JSON_parse rt (fn_arguments toolCall) = Inl e"
  shows "execute d rt ex toolCall page w =
           (Inr (Some \<lparr>result = str ''Error: Invalid JSON arguments for tool '' @
                                 quoted (fn_name toolCall) @ str '': '' @ fn_arguments toolCall,
                        isDone = False, doneSummary = None, needsUserInput = False,
                        userQuestion = None\<rparr>), w)"
  using assms
  by (simp add: execute_def Let_def io_return_def plain_result_def invalid_json_result_def)

text \<open>A witness for C10: a \<^verbatim>\<open>click\<close> call whose arguments are not JSON.\<close>

theorem execute_invalid_json_witness:
  "JSON_parse sample_runtime (fn_arguments sample_bad_call) =
     Inl (Error (str ''Unexpected token in JSON'')) \<and>
   execute still_page_driver sample_runtime sample_executor sample_bad_call 0 [] =
     (Inr (Some \<lparr>result = str ''Error: Invalid JSON arguments for tool '' @
                             quoted (fn_name sample_bad_call) @ str '': '' @
                             fn_arguments sample_bad_call,
                    isDone = False, doneSummary = None, needsUserInput = False,
                    userQuestion = None\<rparr>), [])"
proof -
  have h: "JSON_parse sample_runtime (fn_arguments sample_bad_call) =
     Inl (Error (str ''Unexpected token in JSON''))"
    by (simp add: sample_runtime_def sample_bad_call_def str_def)
  from h execute_invalid_json [OF h] show ?thesis by simp
qed

section \<open>Properties of the agent loop\<close>

lemma visits_loop_counts:
  "i \<le> length xs \<Longrightarrow>
   visits_loop xs u i v = v + length (filter (is_visit xs u) [i..<length xs])"
proof (induction xs u i v rule: visits_loop.induct)
  case (1 allActions currentUrl i visits)
  show ?case
  proof (cases "i < length allActions")
    case True
    then have split: "[i..<length allActions] = i # [i + 1..<length allActions]"
      by (simp add: upt_conv_Cons)
    from True have iv: "is_visit allActions currentUrl i \<longleftrightarrow>
        url (allActions ! i) = currentUrl \<and> (i = 0 \<or> url (allActions ! (i - 1)) \<noteq> currentUrl)"
      by (simp add: is_visit_def)
    from True have "i + 1 \<le> length allActions" by simp
    from "1.IH" [OF True this] True show ?thesis
      by (subst visits_loop.simps) (simp add: split iv)
  next
    case False
    with "1.prems" show ?thesis
      by (subst visits_loop.simps) simp
  qed
qed

lemma visits_card:
  "length (filter (is_visit xs u) [0..<length xs]) = card {i. is_visit xs u i}"
proof -
  have "{i. is_visit xs u i} = set (filter (is_visit xs u) [0..<length xs])"
    by (auto simp: is_visit_def)
  moreover have "card (set (filter (is_visit xs u) [0..<length xs])) =
      length (filter (is_visit xs u) [0..<length xs])"
    by (rule distinct_card) simp
  ultimately show ?thesis
    by simp
qed

text \<open>
  C5. When \<open>recent @ [proposed]\<close> holds at least three distinct visits to the proposed url,
  \<^verbatim>\<open>isStuck\<close> returns true.
\<close>

theorem isStuck_oscillation:
  assumes "3 \<le> card {i. is_visit (recent @ [\<lparr>action = a, url = u\<rparr>]) u i}"
  shows "isStuck recent a u"
proof -
  let ?all = "recent @ [\<lparr>action = a, url = u\<rparr>]"
  have "visits_loop ?all u 0 0 = card {i. is_visit ?all u i}"
    using visits_loop_counts [of 0 ?all u 0] by (simp only: visits_card)
  with assms have "3 \<le> visits_loop ?all u 0 0"
    by simp
  then show ?thesis
    by (simp add: isStuck_def Let_def)
qed

lemma sample_visits:
  "{i. is_visit (sample_history @ [\<lparr>action = str ''click(d)'', url = str ''/list''\<rparr>]) (str ''/list'') i}
     = {0, 2, 4}"
  apply (auto simp: is_visit_def sample_history_def str_def nth_append nth_Cons' less_Suc_eq split: if_splits)
  done

text \<open>A witness for C5: the list page is entered for the third time.\<close>

theorem isStuck_oscillation_witness:
  "3 \<le> card {i. is_visit (sample_history @ [\<lparr>action = str ''click(d)'', url = str ''/list''\<rparr>]) (str ''/list'') i}
   \<and> isStuck sample_history (str ''click(d)'') (str ''/list'')"
proof -
  have h: "3 \<le> card {i. is_visit (sample_history @ [\<lparr>action = str ''click(d)'', url = str ''/list''\<rparr>]) (str ''/list'') i}"
    by (simp add: sample_visits)
  from h isStuck_oscillation [OF h] show ?thesis by simp
qed

text \<open>
  C6. When the last two entries of the recent actions both are the proposed action on the
  proposed url, \<^verbatim>\<open>isStuck\<close> returns true.
\<close>

theorem isStuck_exact_repetition:
  "isStuck (earlier @ [\<lparr>action = a, url = u\<rparr>, \<lparr>action = a, url = u\<rparr>]) a u"
  by (simp add: isStuck_def Let_def nth_append)

text \<open>A witness for C6: the same click for the third time.\<close>

theorem isStuck_exact_repetition_witness:
  "isStuck [\<lparr>action = str ''click(x)'', url = str ''/list''\<rparr>,
            \<lparr>action = str ''click(x)'', url = str ''/list''\<rparr>] (str ''click(x)'') (str ''/list'')"
  using isStuck_exact_repetition [of "[]" "str ''click(x)''" "str ''/list''"] by simp

text \<open>
  C9. When the proposed call is found stuck, the body of the loop goes on to the next call
  with exactly one message added, the tool result with the warning for that call; the trace is
  as it was, so nothing was executed in the browser; and the recent actions, the page, the
  executor and the outcome of the run are unchanged.
\<close>

theorem stuck_injection:
  assumes "isStuck (recentActions st)
             (fn_name toolCall @ str ''('' @ fn_arguments toolCall @ str '')'')
             (page_url d w (this_page st))"
  shows "\<exists>st'. tool_call_body d rt launched toolCall st w = (Inr (Some (Continue, st')), w) \<and>
           messages (this_context st') =
             messages (this_context st) @ [Tool (tc_id toolCall) (stuck_message toolCall)] \<and>
           recentActions st' = recentActions st \<and>
           this_page st' = this_page st \<and> this_toolExecutor st' = this_toolExecutor st \<and>
           this_isDone st' = this_isDone st \<and> this_summary st' = this_summary st"
  using assms
  by (simp add: tool_call_body_def Let_def io_bind_def io_return_def read_url_def addToolResult_def)

text \<open>A witness for C9: a third \<^verbatim>\<open>scroll\<close> on the same page.\<close>

theorem stuck_injection_witness:
  "isStuck (recentActions sample_stuck_state)
     (fn_name sample_scroll_call @ str ''('' @ fn_arguments sample_scroll_call @ str '')'')
     (page_url still_page_driver [] (this_page sample_stuck_state)) \<and>
   (\<exists>st'. tool_call_body still_page_driver sample_runtime True sample_scroll_call
             sample_stuck_state [] = (Inr (Some (Continue, st')), []) \<and>
           messages (this_context st') =
             messages (this_context sample_stuck_state) @
               [Tool (tc_id sample_scroll_call) (stuck_message sample_scroll_call)] \<and>
           recentActions st' = recentActions sample_stuck_state)"
proof -
  have h: "isStuck (recentActions sample_stuck_state)
     (fn_name sample_scroll_call @ str ''('' @ fn_arguments sample_scroll_call @ str '')'')
     (page_url still_page_driver [] (this_page sample_stuck_state))"
    by (simp add: isStuck_def sample_stuck_state_def sample_scroll_call_def
        still_page_driver_def str_def Let_def)
  from stuck_injection [OF h, of sample_runtime True] h show ?thesis by blast
qed

end
